theory Spec2Isabelle
  imports Complex_Main "HOL-Library.Word"
begin

section \<open>JavaScript strings\<close>

text \<open>
  A JavaScript string is a sequence of UTF-16 code units, and \<^verbatim>\<open>length\<close>,
  \<^verbatim>\<open>substring\<close>, \<^verbatim>\<open>startsWith\<close>, \<^verbatim>\<open>repeat\<close> and \<^verbatim>\<open>replace\<close> all work on code
  units. A code unit is a 16-bit word; the box-drawing characters of the fallback art are
  one code unit each.
\<close>

type_synonym jschar = "16 word"

type_synonym jstring = "jschar list"

definition js :: "string \<Rightarrow> jstring" where
  \<comment> \<open>An ASCII literal of the source as code units.\<close>
  "js s = map of_char s"

definition nl :: jschar where
  \<comment> \<open>The line feed of \<^verbatim>\<open>'\n'\<close>.\<close>
  "nl = 0x0A"

definition startsWith :: "jstring \<Rightarrow> jstring \<Rightarrow> bool" where
  "startsWith s p = (take (length p) s = p)"

definition substring :: "jstring \<Rightarrow> nat \<Rightarrow> nat \<Rightarrow> jstring" where
  \<comment> \<open>Both indices are clamped to the length and swapped when out of order.\<close>
  "substring s a b =
     (let a' = min a (length s); b' = min b (length s);
          lo = min a' b'; hi = max a' b'
      in take (hi - lo) (drop lo s))"

definition repeat :: "jstring \<Rightarrow> nat \<Rightarrow> jstring" where
  "repeat s n = concat (replicate n s)"

definition isWhiteSpace :: "jschar \<Rightarrow> bool" where
  \<comment> \<open>The WhiteSpace and LineTerminator code points that \<^verbatim>\<open>trim\<close> removes; all lie in
      the basic plane, so each is one code unit.\<close>
  "isWhiteSpace c =
     (c = 0x0009 \<or> c = 0x000A \<or> c = 0x000B \<or> c = 0x000C \<or> c = 0x000D \<or> c = 0x0020 \<or>
      c = 0x00A0 \<or> c = 0x1680 \<or> (0x2000 \<le> c \<and> c \<le> 0x200A) \<or> c = 0x2028 \<or>
      c = 0x2029 \<or> c = 0x202F \<or> c = 0x205F \<or> c = 0x3000 \<or> c = 0xFEFF)"

definition trim :: "jstring \<Rightarrow> jstring" where
  "trim s = rev (dropWhile isWhiteSpace (rev (dropWhile isWhiteSpace s)))"

fun replace :: "jstring \<Rightarrow> jstring \<Rightarrow> jstring \<Rightarrow> jstring" where
  \<comment> \<open>\<^verbatim>\<open>s.replace(pat, rep)\<close> with a string pattern: only the first occurrence is
      replaced. The replacement of the source is the empty string, so no \<^verbatim>\<open>$\<close> pattern
      is involved.\<close>
  "replace [] pat rep = (if pat = [] then rep else [])"
| "replace (c # cs) pat rep =
     (if startsWith (c # cs) pat then rep @ drop (length pat) (c # cs)
      else c # replace cs pat rep)"

text \<open>
  \<^verbatim>\<open>toLowerCase\<close> is the case mapping of the runtime, which follows the Unicode tables.
  Every operation below that calls it takes it as a parameter \<open>lower\<close>, and every theorem
  holds for any function in its place.
\<close>

definition toLowerCase_ascii :: "jstring \<Rightarrow> jstring" where
  \<comment> \<open>\<^verbatim>\<open>toLowerCase\<close> on strings whose letters are ASCII: A-Z go to a-z, every other
      code unit stays. It stands for \<open>lower\<close> where a statement is evaluated on an ASCII
      input.\<close>
  "toLowerCase_ascii s = map (\<lambda>c. if 0x41 \<le> c \<and> c \<le> 0x5A then c + 0x20 else c) s"

fun lines_of :: "jstring \<Rightarrow> jstring list" where
  \<comment> \<open>The newline-separated lines of a text, as \<^verbatim>\<open>text.split('\n')\<close> gives them.\<close>
  "lines_of [] = [[]]"
| "lines_of (c # cs) =
     (if c = nl then [] # lines_of cs
      else (case lines_of cs of [] \<Rightarrow> [[c]] | l # ls \<Rightarrow> (c # l) # ls))"

definition endsWith :: "jstring \<Rightarrow> jstring \<Rightarrow> bool" where
  "endsWith s p = (length p \<le> length s \<and> drop (length s - length p) s = p)"


section \<open>Fallback art\<close>

record AsciiArtData =
  art :: jstring

definition displayableTopic :: "jstring \<Rightarrow> jstring" where
  \<comment> \<open>The local \<^verbatim>\<open>displayableTopic\<close> of \<^verbatim>\<open>createFallbackArt\<close>.\<close>
  "displayableTopic topic =
     (if length topic > 20 then substring topic 0 17 @ js ''...'' else topic)"

definition createFallbackArt :: "jstring \<Rightarrow> AsciiArtData" where
  "createFallbackArt topic =
     (let paddedTopic = js '' '' @ displayableTopic topic @ js '' '';
          topBorder = [0x250C] @ repeat [0x2500] (length paddedTopic) @ [0x2510];
          middle = [0x2502] @ paddedTopic @ [0x2502];
          bottomBorder = [0x2514] @ repeat [0x2500] (length paddedTopic) @ [0x2518]
      in \<lparr> art = topBorder @ [nl] @ middle @ [nl] @ bottomBorder \<rparr>)"


section \<open>The curated word list\<close>

definition PREDEFINED_WORDS :: "jstring list" where
  "PREDEFINED_WORDS = map js [
      ''Balance'', ''Harmony'', ''Discord'', ''Unity'', ''Fragmentation'', ''Clarity'',
      ''Ambiguity'', ''Presence'', ''Absence'', ''Creation'', ''Destruction'', ''Light'',
      ''Shadow'', ''Beginning'', ''Ending'', ''Rising'', ''Falling'', ''Connection'',
      ''Isolation'', ''Hope'', ''Despair'',
      ''Order and chaos'', ''Light and shadow'', ''Sound and silence'',
      ''Form and formlessness'', ''Being and nonbeing'', ''Presence and absence'',
      ''Motion and stillness'', ''Unity and multiplicity'', ''Finite and infinite'',
      ''Sacred and profane'', ''Memory and forgetting'', ''Question and answer'',
      ''Search and discovery'', ''Journey and destination'', ''Dream and reality'',
      ''Time and eternity'', ''Self and other'', ''Known and unknown'',
      ''Spoken and unspoken'', ''Visible and invisible'',
      ''Zigzag'', ''Waves'', ''Spiral'', ''Bounce'', ''Slant'', ''Drip'', ''Stretch'',
      ''Squeeze'', ''Float'', ''Fall'', ''Spin'', ''Melt'', ''Rise'', ''Twist'',
      ''Explode'', ''Stack'', ''Mirror'', ''Echo'', ''Vibrate'',
      ''Gravity'', ''Friction'', ''Momentum'', ''Inertia'', ''Turbulence'', ''Pressure'',
      ''Tension'', ''Oscillate'', ''Fractal'', ''Quantum'', ''Entropy'', ''Vortex'',
      ''Resonance'', ''Equilibrium'', ''Centrifuge'', ''Elastic'', ''Viscous'',
      ''Refract'', ''Diffuse'', ''Cascade'', ''Levitate'', ''Magnetize'', ''Polarize'',
      ''Accelerate'', ''Compress'', ''Undulate'',
      ''Liminal'', ''Ephemeral'', ''Paradox'', ''Zeitgeist'', ''Metamorphosis'',
      ''Synesthesia'', ''Recursion'', ''Emergence'', ''Dialectic'', ''Apophenia'',
      ''Limbo'', ''Flux'', ''Sublime'', ''Uncanny'', ''Palimpsest'', ''Chimera'', ''Void'',
      ''Transcend'', ''Ineffable'', ''Qualia'', ''Gestalt'', ''Simulacra'', ''Abyssal'',
      ''Existential'', ''Nihilism'', ''Solipsism'', ''Phenomenology'', ''Hermeneutics'',
      ''Deconstruction'', ''Postmodern'', ''Absurdism'', ''Catharsis'', ''Epiphany'',
      ''Melancholy'', ''Nostalgia'', ''Longing'', ''Reverie'', ''Pathos'', ''Ethos'',
      ''Logos'', ''Mythos'', ''Anamnesis'', ''Intertextuality'', ''Metafiction'',
      ''Stream'', ''Lacuna'', ''Caesura'', ''Enjambment''
    ]"

definition spread_Set :: "'a list \<Rightarrow> 'a list" where
  \<comment> \<open>\<^verbatim>\<open>[...new Set(xs)]\<close>: the elements in the order of their first occurrence.\<close>
  "spread_Set xs = foldl (\<lambda>acc x. if x \<in> set acc then acc else acc @ [x]) [] xs"

definition UNIQUE_WORDS :: "jstring list" where
  "UNIQUE_WORDS = spread_Set PREDEFINED_WORDS"


section \<open>The state of the App component\<close>

text \<open>
  The state variables of the component, but for the theme: no handler and no effect that
  reads or writes the theme touches another variable, and none of the operations below
  reads or writes the theme.
\<close>

record app_state =
  currentTopic :: jstring
  content :: jstring
  isLoading :: bool
  error :: "jstring option"
  asciiArt :: "AsciiArtData option"
  generationTime :: "real option"
  history :: "jstring list"
  isTranslating :: bool
  translationError :: "jstring option"
  translatedContent :: "jstring option"
  targetLanguage :: jstring
  translatedLanguage :: "jstring option"

definition initial_state :: app_state where
  \<comment> \<open>The arguments of the \<^verbatim>\<open>useState\<close> calls.\<close>
  "initial_state =
     \<lparr> currentTopic = js ''Hypertext'', content = [], isLoading = True, error = None,
       asciiArt = None, generationTime = None, history = [],
       isTranslating = False, translationError = None, translatedContent = None,
       targetLanguage = js ''Spanish'', translatedLanguage = None \<rparr>"

text \<open>
  What a stream or a promise can throw: an \<^verbatim>\<open>Error\<close> object with its message, or any
  other value. The \<^verbatim>\<open>catch\<close> blocks read the message of the first and use a fixed text
  for the second.
\<close>

datatype thrown = ErrorObj jstring | NonError

definition errorMessage :: "thrown \<Rightarrow> jstring" where
  "errorMessage e = (case e of ErrorObj m \<Rightarrow> m | NonError \<Rightarrow> js ''An unknown error occurred'')"

text \<open>What one step of an asynchronous iteration delivers.\<close>

datatype stream_item = Chunk jstring | Throws thrown | Done


section \<open>The topic fetch\<close>

text \<open>
  One run of the topic effect owns a closure: the topic it captured, its cancellation
  flag, the text accumulated so far and the start time. \<open>streamClosed\<close> records that the
  \<^verbatim>\<open>for await\<close> loop has been left (the iterator is closed and delivers nothing more),
  \<open>artSettled\<close> that the art promise has settled.
\<close>

record fetch_op =
  topic :: jstring
  isCancelled :: bool
  accumulatedContent :: jstring
  startTime :: real
  streamClosed :: bool
  artSettled :: bool

definition fetchContentAndArt :: "jstring \<Rightarrow> real \<Rightarrow> app_state \<Rightarrow> fetch_op \<times> app_state" where
  \<comment> \<open>The synchronous prefix of \<^verbatim>\<open>fetchContentAndArt\<close>, up to the first \<^verbatim>\<open>await\<close>;
      \<open>now\<close> is the reading of \<^verbatim>\<open>performance.now()\<close>.\<close>
  "fetchContentAndArt topic0 now s =
     (\<lparr> topic = topic0, isCancelled = False, accumulatedContent = [], startTime = now,
        streamClosed = False, artSettled = False \<rparr>,
      s\<lparr> isLoading := True, error := None, content := [], asciiArt := None,
         generationTime := None, translatedContent := None, translationError := None,
         isTranslating := False, translatedLanguage := None \<rparr>)"

definition cleanup :: "fetch_op \<Rightarrow> fetch_op" where
  \<comment> \<open>The function the effect returns.\<close>
  "cleanup op = op\<lparr> isCancelled := True \<rparr>"

definition setHistory_updater :: "(jstring \<Rightarrow> jstring) \<Rightarrow> jstring \<Rightarrow> jstring list \<Rightarrow> jstring list" where
  \<comment> \<open>The updater passed to \<^verbatim>\<open>setHistory\<close>. On the empty list \<^verbatim>\<open>prev[prev.length - 1]\<close>
      is undefined, the optional chaining yields undefined, and the comparison fails.\<close>
  "setHistory_updater lower topic0 prev =
     (if prev \<noteq> [] \<and> lower (last prev) = lower topic0 then prev
      else (let newHistory = prev @ [topic0]
            in if length newHistory > 15 then drop (length newHistory - 15) newHistory
               else newHistory))"

definition catch_block :: "thrown \<Rightarrow> fetch_op \<Rightarrow> app_state \<Rightarrow> app_state" where
  "catch_block e op s =
     (if \<not> isCancelled op then s\<lparr> error := Some (errorMessage e), content := [] \<rparr> else s)"

definition finally_block ::
  "(jstring \<Rightarrow> jstring) \<Rightarrow> bool \<Rightarrow> real \<Rightarrow> fetch_op \<Rightarrow> app_state \<Rightarrow> app_state" where
  \<comment> \<open>\<open>endTime\<close> is the reading of \<^verbatim>\<open>performance.now()\<close> taken in the block.\<close>
  "finally_block lower success endTime op s =
     (if \<not> isCancelled op
      then (let s1 = s\<lparr> generationTime := Some (endTime - startTime op), isLoading := False \<rparr>
            in if success
               then s1\<lparr> history := setHistory_updater lower (topic op) (history s1) \<rparr>
               else s1)
      else s)"

definition stream_step ::
  "(jstring \<Rightarrow> jstring) \<Rightarrow> stream_item \<Rightarrow> real \<Rightarrow> fetch_op \<times> app_state \<Rightarrow> fetch_op \<times> app_state" where
  \<comment> \<open>One delivery of \<^verbatim>\<open>streamDefinition\<close> to the loop, with what follows the loop when
      it is left: by \<^verbatim>\<open>break\<close>, by a throw, or at the end of the stream.\<close>
  "stream_step lower item now st =
     (case st of (op, s) \<Rightarrow>
        if streamClosed op then (op, s)
        else (case item of
            Chunk chunk \<Rightarrow>
              if isCancelled op
              then (op\<lparr> streamClosed := True \<rparr>,
                    finally_block lower (accumulatedContent op \<noteq> []) now op s)
              else if startsWith chunk (js ''Error:'')
              then (op\<lparr> streamClosed := True \<rparr>,
                    finally_block lower False now op (catch_block (ErrorObj chunk) op s))
              else (let op' = op\<lparr> accumulatedContent := accumulatedContent op @ chunk \<rparr>
                    in (op', if \<not> isCancelled op' then s\<lparr> content := accumulatedContent op' \<rparr>
                             else s))
          | Throws e \<Rightarrow>
              (op\<lparr> streamClosed := True \<rparr>, finally_block lower False now op (catch_block e op s))
          | Done \<Rightarrow>
              (op\<lparr> streamClosed := True \<rparr>,
               finally_block lower (accumulatedContent op \<noteq> []) now op s)))"

datatype art_outcome = ArtResolved AsciiArtData | ArtRejected

definition art_step :: "art_outcome \<Rightarrow> fetch_op \<times> app_state \<Rightarrow> fetch_op \<times> app_state" where
  \<comment> \<open>The \<^verbatim>\<open>then\<close> and \<^verbatim>\<open>catch\<close> handlers of \<^verbatim>\<open>generateAsciiArt\<close>.\<close>
  "art_step outcome st =
     (case st of (op, s) \<Rightarrow>
        if artSettled op then (op, s)
        else (op\<lparr> artSettled := True \<rparr>,
              (case outcome of
                 ArtResolved a \<Rightarrow> if \<not> isCancelled op then s\<lparr> asciiArt := Some a \<rparr> else s
               | ArtRejected \<Rightarrow>
                   if \<not> isCancelled op
                   then s\<lparr> asciiArt := Some (createFallbackArt (topic op)) \<rparr> else s)))"

datatype fetch_event = StreamEv stream_item real | ArtEv art_outcome

fun fetch_step ::
  "(jstring \<Rightarrow> jstring) \<Rightarrow> fetch_event \<Rightarrow> fetch_op \<times> app_state \<Rightarrow> fetch_op \<times> app_state" where
  "fetch_step lower (StreamEv item now) st = stream_step lower item now st"
| "fetch_step lower (ArtEv outcome) st = art_step outcome st"

fun fetch_run ::
  "(jstring \<Rightarrow> jstring) \<Rightarrow> fetch_event list \<Rightarrow> fetch_op \<times> app_state \<Rightarrow> fetch_op \<times> app_state" where
  "fetch_run lower [] st = st"
| "fetch_run lower (ev # evs) st = fetch_run lower evs (fetch_step lower ev st)"


section \<open>Translation\<close>

record translate_op =
  sourceContent :: jstring
  language :: jstring
  accumulatedTranslation :: jstring
  translationClosed :: bool

definition handleTranslate ::
  "app_state \<Rightarrow> translate_op option \<times> app_state \<times> (jstring \<times> jstring) list" where
  \<comment> \<open>\<^verbatim>\<open>handleTranslate\<close> up to the first \<^verbatim>\<open>await\<close>: the closure of the run it starts
      (none when it returns at once), the new state, and the arguments of the calls of
      \<^verbatim>\<open>streamTranslation\<close> it makes.\<close>
  "handleTranslate s =
     (if content s = [] then (None, s, [])
      else (Some \<lparr> sourceContent = content s, language = targetLanguage s,
                   accumulatedTranslation = [], translationClosed = False \<rparr>,
            s\<lparr> isTranslating := True, translatedContent := Some [], translationError := None \<rparr>,
            [(content s, targetLanguage s)]))"

definition translate_catch :: "thrown \<Rightarrow> app_state \<Rightarrow> app_state" where
  "translate_catch e s =
     s\<lparr> translationError := Some (replace (errorMessage e) (js ''Error: '') []),
        translatedContent := None \<rparr>"

definition translate_finally :: "bool \<Rightarrow> translate_op \<Rightarrow> app_state \<Rightarrow> app_state" where
  "translate_finally success op s =
     (let s1 = s\<lparr> isTranslating := False \<rparr>
      in if success then s1\<lparr> translatedLanguage := Some (language op) \<rparr> else s1)"

definition translate_step ::
  "stream_item \<Rightarrow> translate_op \<times> app_state \<Rightarrow> translate_op \<times> app_state" where
  \<comment> \<open>One delivery of \<^verbatim>\<open>streamTranslation\<close> to the loop of \<^verbatim>\<open>handleTranslate\<close>.\<close>
  "translate_step item st =
     (case st of (op, s) \<Rightarrow>
        if translationClosed op then (op, s)
        else (case item of
            Chunk chunk \<Rightarrow>
              if startsWith chunk (js ''Error:'')
              then (op\<lparr> translationClosed := True \<rparr>,
                    translate_finally False op (translate_catch (ErrorObj chunk) s))
              else (let op' = op\<lparr> accumulatedTranslation := accumulatedTranslation op @ chunk \<rparr>
                    in (op', s\<lparr> translatedContent := Some (accumulatedTranslation op') \<rparr>))
          | Throws e \<Rightarrow>
              (op\<lparr> translationClosed := True \<rparr>, translate_finally False op (translate_catch e s))
          | Done \<Rightarrow>
              (op\<lparr> translationClosed := True \<rparr>,
               translate_finally (accumulatedTranslation op \<noteq> []) op s)))"

definition handleLanguageChange :: "jstring \<Rightarrow> app_state \<Rightarrow> app_state" where
  "handleLanguageChange l s = s\<lparr> targetLanguage := l \<rparr>"


section \<open>Topic changes\<close>

text \<open>
  The component together with the fetch of the current topic, the fetches that earlier
  topic changes left behind, and the translations started so far. React runs the effect
  again only when \<^verbatim>\<open>currentTopic\<close> has
  changed: it first calls the function the previous run returned, then the effect, which
  does nothing for the empty topic.
\<close>

record system =
  app :: app_state
  current :: "fetch_op option"
  superseded :: "fetch_op list"
  translation_ops :: "translate_op list"

definition topic_effect :: "real \<Rightarrow> app_state \<Rightarrow> fetch_op option \<times> app_state" where
  \<comment> \<open>The body of the effect: nothing for the empty topic, otherwise a new fetch.\<close>
  "topic_effect now s =
     (if currentTopic s = [] then (None, s)
      else (case fetchContentAndArt (currentTopic s) now s of (op, s') \<Rightarrow> (Some op, s')))"

definition mount :: "real \<Rightarrow> system" where
  \<comment> \<open>The first run of the effect, on the initial state.\<close>
  "mount now =
     (case topic_effect now initial_state of
        (c, s) \<Rightarrow> \<lparr> app = s, current = c, superseded = [], translation_ops = [] \<rparr>)"

definition setCurrentTopic :: "jstring \<Rightarrow> real \<Rightarrow> system \<Rightarrow> system" where
  "setCurrentTopic newTopic now sys =
     (if newTopic = currentTopic (app sys) then sys
      else (let old = (case current sys of None \<Rightarrow> superseded sys
                       | Some op \<Rightarrow> superseded sys @ [cleanup op])
            in case topic_effect now ((app sys)\<lparr> currentTopic := newTopic \<rparr>) of
                 (c, s) \<Rightarrow> sys\<lparr> app := s, current := c, superseded := old \<rparr>))"

definition handleWordClick :: "(jstring \<Rightarrow> jstring) \<Rightarrow> jstring \<Rightarrow> real \<Rightarrow> system \<Rightarrow> system" where
  "handleWordClick lower word now sys =
     (let newTopic = trim word
      in if newTopic \<noteq> [] \<and> lower newTopic \<noteq> lower (currentTopic (app sys))
         then setCurrentTopic newTopic now sys else sys)"

definition handleSearch :: "(jstring \<Rightarrow> jstring) \<Rightarrow> jstring \<Rightarrow> real \<Rightarrow> system \<Rightarrow> system" where
  "handleSearch lower topic0 now sys =
     (let newTopic = trim topic0
      in if newTopic \<noteq> [] \<and> lower newTopic \<noteq> lower (currentTopic (app sys))
         then setCurrentTopic newTopic now sys else sys)"

definition handleSubmit :: "jstring \<Rightarrow> bool \<Rightarrow> jstring list \<times> jstring" where
  \<comment> \<open>The form handler of the search bar, from its \<open>query\<close> state and its \<open>isLoading\<close>
      property: the arguments of the calls of \<^verbatim>\<open>onSearch\<close> it makes, and the new
      \<open>query\<close>.\<close>
  "handleSubmit query loading =
     (if trim query \<noteq> [] \<and> \<not> loading then ([trim query], []) else ([], query))"


section \<open>The random topic\<close>

definition array_get :: "'a list \<Rightarrow> nat \<Rightarrow> 'a option" where
  \<comment> \<open>An index past the end of an array reads \<^verbatim>\<open>undefined\<close>, here \<open>None\<close>.\<close>
  "array_get xs i = (if i < length xs then Some (xs ! i) else None)"

definition handleRandom_begin :: "app_state \<Rightarrow> app_state" where
  \<comment> \<open>\<^verbatim>\<open>handleRandom\<close> up to the \<^verbatim>\<open>await\<close>.\<close>
  "handleRandom_begin s = s\<lparr> isLoading := True, error := None, content := [], asciiArt := None \<rparr>"

datatype random_failure = TypeError | TopicUndefined

definition handleRandom_settle ::
  "(jstring \<Rightarrow> jstring) \<Rightarrow> jstring \<Rightarrow> thrown + jstring \<Rightarrow> (nat \<Rightarrow> nat) \<Rightarrow> nat \<Rightarrow> real \<Rightarrow>
   system \<Rightarrow> (random_failure + system) \<times> nat" where
  \<comment> \<open>\<^verbatim>\<open>handleRandom\<close> from the settling of \<^verbatim>\<open>getRandomWord\<close> on. \<open>topic0\<close> is the
      \<^verbatim>\<open>currentTopic\<close> the callback captured. \<open>draw k\<close> is the value of the \<open>k\<close>-th
      evaluation of \<^verbatim>\<open>Math.floor(Math.random() * UNIQUE_WORDS.length)\<close>, a computation
      of the runtime in floating point, taken as it comes; \<open>k\<close> counts the evaluations
      made so far and is returned updated. An undefined \<^verbatim>\<open>nextTopic\<close> makes
      \<^verbatim>\<open>toLowerCase\<close> throw; an undefined re-roll would be set as the topic.\<close>
  "handleRandom_settle lower topic0 outcome draw k now sys =
     (case (case outcome of
              Inr randomWord \<Rightarrow> (Some randomWord, k)
            | Inl e \<Rightarrow> (array_get UNIQUE_WORDS (draw k), Suc k)) of
        (None, k1) \<Rightarrow> (Inl TypeError, k1)
      | (Some nextTopic, k1) \<Rightarrow>
          if lower nextTopic = lower topic0
          then (case array_get UNIQUE_WORDS (draw k1) of
                  None \<Rightarrow> (Inl TopicUndefined, Suc k1)
                | Some w \<Rightarrow> (Inr (setCurrentTopic w now sys), Suc k1))
          else (Inr (setCurrentTopic nextTopic now sys), k1))"


section \<open>Runs of the component\<close>

text \<open>
  The runtime delivers each stream item and each settled promise to the closure that
  awaits it: to the fetch of the current topic, or to one of the fetches that a topic
  change left behind, which go on receiving until their stream is closed.
\<close>

definition deliver :: "(jstring \<Rightarrow> jstring) \<Rightarrow> fetch_event \<Rightarrow> system \<Rightarrow> system" where
  "deliver lower ev sys =
     (case current sys of
        None \<Rightarrow> sys
      | Some op \<Rightarrow>
          (case fetch_step lower ev (op, app sys) of
             (op', s') \<Rightarrow> sys\<lparr> app := s', current := Some op' \<rparr>))"

definition deliver_superseded ::
  "(jstring \<Rightarrow> jstring) \<Rightarrow> nat \<Rightarrow> fetch_event \<Rightarrow> system \<Rightarrow> system" where
  "deliver_superseded lower i ev sys =
     (if i < length (superseded sys)
      then (case fetch_step lower ev (superseded sys ! i, app sys) of
              (op', s') \<Rightarrow> sys\<lparr> app := s', superseded := (superseded sys)[i := op'] \<rparr>)
      else sys)"

definition translate :: "system \<Rightarrow> system" where
  \<comment> \<open>The translate action, with the run it starts, if any.\<close>
  "translate sys =
     (case handleTranslate (app sys) of
        (None, s, calls) \<Rightarrow> sys\<lparr> app := s \<rparr>
      | (Some op, s, calls) \<Rightarrow> sys\<lparr> app := s, translation_ops := translation_ops sys @ [op] \<rparr>)"

definition deliver_translation :: "nat \<Rightarrow> stream_item \<Rightarrow> system \<Rightarrow> system" where
  "deliver_translation i item sys =
     (if i < length (translation_ops sys)
      then (case translate_step item (translation_ops sys ! i, app sys) of
              (op', s') \<Rightarrow> sys\<lparr> app := s', translation_ops := (translation_ops sys)[i := op'] \<rparr>)
      else sys)"

text \<open>
  What can happen to the component: a search, a word click, the two halves of the random
  action (with the topic the callback captured, the outcome of the service, the indices
  drawn and the number of indices drawn so far), the translate action, a change of the
  target language, and the deliveries to the fetches and to the translations.
\<close>

datatype sys_event =
    Search jstring real
  | WordClick jstring real
  | RandomBegin
  | RandomSettle jstring "thrown + jstring" "nat \<Rightarrow> nat" nat real
  | Deliver fetch_event
  | DeliverSuperseded nat fetch_event
  | Translate
  | DeliverTranslation nat stream_item
  | LanguageChange jstring

fun sys_step :: "(jstring \<Rightarrow> jstring) \<Rightarrow> sys_event \<Rightarrow> system \<Rightarrow> system" where
  "sys_step lower (Search q now) sys = handleSearch lower q now sys"
| "sys_step lower (WordClick w now) sys = handleWordClick lower w now sys"
| "sys_step lower RandomBegin sys = sys\<lparr> app := handleRandom_begin (app sys) \<rparr>"
| "sys_step lower (RandomSettle topic0 outcome draw k now) sys =
     (case fst (handleRandom_settle lower topic0 outcome draw k now sys) of
        Inl failure \<Rightarrow> sys
      | Inr sys' \<Rightarrow> sys')"
| "sys_step lower (Deliver ev) sys = deliver lower ev sys"
| "sys_step lower (DeliverSuperseded i ev) sys = deliver_superseded lower i ev sys"
| "sys_step lower Translate sys = translate sys"
| "sys_step lower (DeliverTranslation i item) sys = deliver_translation i item sys"
| "sys_step lower (LanguageChange l) sys = sys\<lparr> app := handleLanguageChange l (app sys) \<rparr>"

fun sys_run :: "(jstring \<Rightarrow> jstring) \<Rightarrow> sys_event list \<Rightarrow> system \<Rightarrow> system" where
  "sys_run lower [] sys = sys"
| "sys_run lower (ev # evs) sys = sys_run lower evs (sys_step lower ev sys)"


section \<open>Notions of the specification\<close>

fun no_consecutive_duplicates :: "(jstring \<Rightarrow> jstring) \<Rightarrow> jstring list \<Rightarrow> bool" where
  \<comment> \<open>No two neighbours of the list are equal up to case.\<close>
  "no_consecutive_duplicates lower [] = True"
| "no_consecutive_duplicates lower [x] = True"
| "no_consecutive_duplicates lower (x # y # ys) =
     (lower x \<noteq> lower y \<and> no_consecutive_duplicates lower (y # ys))"

definition history_ok :: "(jstring \<Rightarrow> jstring) \<Rightarrow> jstring list \<Rightarrow> bool" where
  "history_ok lower h = (length h \<le> 15 \<and> no_consecutive_duplicates lower h)"

definition strip_leading_prefix :: "jstring \<Rightarrow> jstring \<Rightarrow> jstring" where
  \<comment> \<open>The message with a leading prefix stripped, in the words of the specification.\<close>
  "strip_leading_prefix p s = (if startsWith s p then drop (length p) s else s)"

fun js_includes :: "jstring \<Rightarrow> jstring \<Rightarrow> bool" where
  \<comment> \<open>The pattern occurs somewhere in the string.\<close>
  "js_includes [] p = (p = [])"
| "js_includes (c # cs) p = (startsWith (c # cs) p \<or> js_includes cs p)"

definition is_reset :: "app_state \<Rightarrow> bool" where
  \<comment> \<open>The display, error and translation state are cleared and loading is set.\<close>
  "is_reset s =
     (content s = [] \<and> error s = None \<and> asciiArt s = None \<and> generationTime s = None \<and>
      translatedContent s = None \<and> translationError s = None \<and> \<not> isTranslating s \<and>
      translatedLanguage s = None \<and> isLoading s)"

definition current_ok :: "system \<Rightarrow> bool" where
  \<comment> \<open>The fetch of the current topic, if any, is not cancelled and is for that topic.\<close>
  "current_ok sys =
     (case current sys of None \<Rightarrow> True
      | Some op \<Rightarrow> \<not> isCancelled op \<and> topic op = currentTopic (app sys))"

definition sys_ok :: "(jstring \<Rightarrow> jstring) \<Rightarrow> system \<Rightarrow> bool" where
  \<comment> \<open>What every run of the component keeps: the fetches left behind are cancelled, the
      current one is not, and the history is within its bounds.\<close>
  "sys_ok lower sys =
     (list_all isCancelled (superseded sys) \<and> current_ok sys \<and>
      history_ok lower (history (app sys)))"

section \<open>Facts about the string operations\<close>

lemma substring_0: "substring s 0 n = take n s"
  by (simp add: substring_def Let_def min_def)

lemma js_dots: "js ''...'' = [0x2E, 0x2E, 0x2E]"
  by (simp add: js_def)

lemma js_space: "js '' '' = [0x20]"
  by (simp add: js_def)

lemma length_repeat_single: "length (repeat [c] n) = n"
  by (induction n) (simp_all add: repeat_def)

lemma set_repeat_single: "set (repeat [c] n) \<subseteq> {c}"
  by (induction n) (simp_all add: repeat_def)

lemma lines_of_not_Nil: "lines_of s \<noteq> []"
  by (induction s) (auto split: list.splits)

lemma lines_of_no_nl: "nl \<notin> set s \<Longrightarrow> lines_of s = [s]"
  by (induction s) auto

lemma lines_of_append_nl: "nl \<notin> set s \<Longrightarrow> lines_of (s @ nl # t) = s # lines_of t"
  by (induction s) auto

lemma last_dropWhile: "dropWhile P xs \<noteq> [] \<Longrightarrow> last (dropWhile P xs) = last xs"
  by (induction xs) (auto split: if_splits)

lemma trim_ends:
  assumes "trim s \<noteq> []"
  shows "\<not> isWhiteSpace (hd (trim s)) \<and> \<not> isWhiteSpace (last (trim s))"
proof -
  let ?d = "dropWhile isWhiteSpace s"
  let ?e = "dropWhile isWhiteSpace (rev ?d)"
  from assms have e: "?e \<noteq> []" by (simp add: trim_def)
  have "?d = [] \<Longrightarrow> ?e = []" by (simp only: rev.simps dropWhile.simps)
  with e have d: "?d \<noteq> []" by blast
  have "last (trim s) = hd ?e" using e by (simp add: trim_def last_rev)
  moreover have "\<not> isWhiteSpace (hd ?e)" using e by (rule hd_dropWhile)
  moreover have "hd (trim s) = last ?e" using e by (simp add: trim_def hd_rev)
  moreover have "last ?e = last (rev ?d)" using e by (rule last_dropWhile)
  moreover have "last (rev ?d) = hd ?d" using d by (simp add: last_rev)
  moreover have "\<not> isWhiteSpace (hd ?d)" using d by (rule hd_dropWhile)
  ultimately show ?thesis by simp
qed

lemma dropWhile_id: "xs \<noteq> [] \<Longrightarrow> \<not> P (hd xs) \<Longrightarrow> dropWhile P xs = xs"
  by (cases xs) auto

lemma trim_trim: "trim (trim s) = trim s"
proof (cases "trim s = []")
  case True
  have "trim [] = []" by (simp add: trim_def)
  with True show ?thesis by (simp only:)
next
  case False
  from trim_ends [OF False] have h: "\<not> isWhiteSpace (hd (trim s))" and l: "\<not> isWhiteSpace (last (trim s))"
    by simp_all
  have 1: "dropWhile isWhiteSpace (trim s) = trim s" using False h by (rule dropWhile_id)
  have "rev (trim s) \<noteq> []" using False by simp
  moreover have "\<not> isWhiteSpace (hd (rev (trim s)))" using False l by (simp add: hd_rev)
  ultimately have 2: "dropWhile isWhiteSpace (rev (trim s)) = rev (trim s)" by (rule dropWhile_id)
  show ?thesis by (subst (1) trim_def) (simp only: 1 2 rev_rev_ident)
qed

lemma length_js_Error_space: "length (js ''Error: '') = 7" "js ''Error: '' \<noteq> []"
  by (simp_all add: js_def)

lemma replace_leading:
  "startsWith s p \<Longrightarrow> p \<noteq> [] \<Longrightarrow> replace s p r = r @ drop (length p) s"
  by (cases s) (auto simp: startsWith_def)

lemma replace_not_included: "\<not> js_includes s p \<Longrightarrow> replace s p r = s"
  by (induction s) auto

section \<open>Facts about the fallback art\<close>

lemma displayableTopic_short: "length t \<le> 20 \<Longrightarrow> displayableTopic t = t"
  by (simp add: displayableTopic_def)

lemma displayableTopic_long: "20 < length t \<Longrightarrow> displayableTopic t = take 17 t @ js ''...''"
  by (simp add: displayableTopic_def substring_0)

lemma length_displayableTopic: "length (displayableTopic t) \<le> 20"
  by (simp add: displayableTopic_def substring_0 js_dots)

lemma displayableTopic_no_nl: "nl \<notin> set t \<Longrightarrow> nl \<notin> set (displayableTopic t)"
  by (auto simp: displayableTopic_def substring_0 js_dots nl_def dest: in_set_takeD)

lemma art_createFallbackArt:
  "art (createFallbackArt t) =
     ([0x250C] @ repeat [0x2500] (length (displayableTopic t) + 2) @ [0x2510]) @ [nl] @
     ([0x2502, 0x20] @ displayableTopic t @ [0x20, 0x2502]) @ [nl] @
     ([0x2514] @ repeat [0x2500] (length (displayableTopic t) + 2) @ [0x2518])"
  by (simp add: createFallbackArt_def Let_def js_space)

lemma createFallbackArt_lines_of:
  assumes "nl \<notin> set t"
  shows "lines_of (art (createFallbackArt t)) =
           [[0x250C] @ repeat [0x2500] (length (displayableTopic t) + 2) @ [0x2510],
            [0x2502, 0x20] @ displayableTopic t @ [0x20, 0x2502],
            [0x2514] @ repeat [0x2500] (length (displayableTopic t) + 2) @ [0x2518]]"
proof -
  let ?d = "displayableTopic t"
  let ?n = "length ?d + 2"
  let ?top = "[0x250C] @ repeat [0x2500] ?n @ [0x2510 :: jschar]"
  let ?mid = "[0x2502, 0x20] @ ?d @ [0x20, 0x2502 :: jschar]"
  let ?bot = "[0x2514] @ repeat [0x2500] ?n @ [0x2518 :: jschar]"
  have rep: "nl \<notin> set (repeat [0x2500] ?n)"
    using set_repeat_single [of "0x2500" ?n] by (auto simp: nl_def)
  have top: "nl \<notin> set ?top" using rep by (simp add: nl_def)
  have bot: "nl \<notin> set ?bot" using rep by (simp add: nl_def)
  have mid: "nl \<notin> set ?mid"
    using displayableTopic_no_nl [OF assms] by (simp add: nl_def)
  have shape: "art (createFallbackArt t) = ?top @ nl # ?mid @ nl # ?bot"
    by (simp add: createFallbackArt_def Let_def js_space)
  have "lines_of (?top @ nl # ?mid @ nl # ?bot) = ?top # lines_of (?mid @ nl # ?bot)"
    using top by (rule lines_of_append_nl)
  also have "lines_of (?mid @ nl # ?bot) = ?mid # lines_of ?bot"
    using mid by (rule lines_of_append_nl)
  also have "lines_of ?bot = [?bot]"
    using bot by (rule lines_of_no_nl)
  finally show ?thesis using shape by simp
qed

section \<open>Facts about the word list\<close>







section \<open>Facts about the topic fetch\<close>

lemma stream_step_cancelled:
  "isCancelled op \<Longrightarrow> snd (stream_step lower item now (op, s)) = s \<and>
     isCancelled (fst (stream_step lower item now (op, s)))"
  by (simp add: stream_step_def finally_block_def catch_block_def split: stream_item.splits)

lemma art_step_cancelled:
  "isCancelled op \<Longrightarrow> snd (art_step outcome (op, s)) = s \<and>
     isCancelled (fst (art_step outcome (op, s)))"
  by (simp add: art_step_def split: art_outcome.splits)

lemma fetch_step_cancelled:
  "isCancelled op \<Longrightarrow> snd (fetch_step lower ev (op, s)) = s \<and>
     isCancelled (fst (fetch_step lower ev (op, s)))"
  by (cases ev) (simp_all add: stream_step_cancelled art_step_cancelled)

lemma fetch_run_cancelled:
  "isCancelled op \<Longrightarrow> snd (fetch_run lower evs (op, s)) = s \<and>
     isCancelled (fst (fetch_run lower evs (op, s)))"
proof (induction evs arbitrary: op)
  case Nil
  then show ?case by simp
next
  case (Cons ev evs)
  obtain op' s' where st: "fetch_step lower ev (op, s) = (op', s')" by (cases "fetch_step lower ev (op, s)")
  with fetch_step_cancelled [OF Cons.prems, of lower ev s] have "s' = s" "isCancelled op'" by simp_all
  with Cons.IH [of op'] st show ?case by simp
qed

lemma stream_step_frame:
  "isCancelled (fst (stream_step lower item now (op, s))) = isCancelled op \<and>
   topic (fst (stream_step lower item now (op, s))) = topic op \<and>
   currentTopic (snd (stream_step lower item now (op, s))) = currentTopic s"
  by (simp add: stream_step_def finally_block_def catch_block_def Let_def split: stream_item.splits)

lemma art_step_frame:
  "isCancelled (fst (art_step outcome (op, s))) = isCancelled op \<and>
   topic (fst (art_step outcome (op, s))) = topic op \<and>
   currentTopic (snd (art_step outcome (op, s))) = currentTopic s"
  by (simp add: art_step_def split: art_outcome.splits)

lemma fetch_step_frame:
  "isCancelled (fst (fetch_step lower ev (op, s))) = isCancelled op \<and>
   topic (fst (fetch_step lower ev (op, s))) = topic op \<and>
   currentTopic (snd (fetch_step lower ev (op, s))) = currentTopic s"
  by (cases ev) (simp_all add: stream_step_frame art_step_frame)

lemma stream_step_error_chunk:
  assumes "\<not> isCancelled op" and "\<not> streamClosed op" and "startsWith chunk (js ''Error:'')"
  shows "stream_step lower (Chunk chunk) now (op, s) =
           (op\<lparr> streamClosed := True \<rparr>,
            s\<lparr> error := Some chunk, content := [],
               generationTime := Some (now - startTime op), isLoading := False \<rparr>)"
  using assms
  by (simp add: stream_step_def finally_block_def catch_block_def errorMessage_def)

lemma stream_step_closed:
  "stream_step lower item now (op\<lparr> streamClosed := True \<rparr>, s) = (op\<lparr> streamClosed := True \<rparr>, s)"
  by (simp add: stream_step_def)

lemma no_consecutive_duplicates_snoc:
  "no_consecutive_duplicates lower (xs @ [t]) \<longleftrightarrow>
     no_consecutive_duplicates lower xs \<and> (xs = [] \<or> lower (last xs) \<noteq> lower t)"
  by (induction lower xs rule: no_consecutive_duplicates.induct) auto

lemma no_consecutive_duplicates_tl:
  "no_consecutive_duplicates lower xs \<Longrightarrow> no_consecutive_duplicates lower (tl xs)"
  by (induction lower xs rule: no_consecutive_duplicates.induct) auto

lemma no_consecutive_duplicates_drop:
  "no_consecutive_duplicates lower xs \<Longrightarrow> no_consecutive_duplicates lower (drop n xs)"
proof (induction n arbitrary: xs)
  case 0
  then show ?case by simp
next
  case (Suc n)
  have "drop (Suc n) xs = drop n (tl xs)" by (simp add: drop_Suc)
  with Suc.IH [OF no_consecutive_duplicates_tl [OF Suc.prems]] show ?case by simp
qed

lemma setHistory_updater_eq:
  "setHistory_updater lower t prev =
     (if prev \<noteq> [] \<and> lower (last prev) = lower t then prev
      else drop (Suc (length prev) - 15) (prev @ [t]))"
  by (simp add: setHistory_updater_def Let_def)

lemma history_ok_setHistory_updater:
  assumes "history_ok lower prev"
  shows "history_ok lower (setHistory_updater lower t prev)"
proof (cases "prev \<noteq> [] \<and> lower (last prev) = lower t")
  case True
  with assms show ?thesis by (simp add: setHistory_updater_eq)
next
  case False
  from assms have "no_consecutive_duplicates lower prev" by (simp add: history_ok_def)
  with False have "no_consecutive_duplicates lower (prev @ [t])"
    by (auto simp: no_consecutive_duplicates_snoc)
  then have nd: "no_consecutive_duplicates lower (drop (Suc (length prev) - 15) (prev @ [t]))"
    by (rule no_consecutive_duplicates_drop)
  have len: "length (drop (Suc (length prev) - 15) (prev @ [t])) \<le> 15" by simp
  have eq: "setHistory_updater lower t prev = drop (Suc (length prev) - 15) (prev @ [t])"
    by (simp only: setHistory_updater_eq False if_False)
  show ?thesis unfolding eq history_ok_def using nd len by blast
qed

lemma history_ok_Nil: "history_ok lower []"
  by (simp add: history_ok_def)

lemma history_ok_foldl:
  "history_ok lower h \<Longrightarrow> history_ok lower (foldl (\<lambda>h t. setHistory_updater lower t h) h ts)"
  by (induction ts arbitrary: h) (simp_all add: history_ok_setHistory_updater)

lemma history_finally_block:
  "history (finally_block lower success now op s) =
     (if \<not> isCancelled op \<and> success then setHistory_updater lower (topic op) (history s)
      else history s)"
  by (simp add: finally_block_def Let_def)

lemma history_catch_block: "history (catch_block e op s) = history s"
  by (simp add: catch_block_def)

lemma history_stream_step:
  "history (snd (stream_step lower item now (op, s))) = history s \<or>
   history (snd (stream_step lower item now (op, s))) =
     setHistory_updater lower (topic op) (history s)"
  by (simp add: stream_step_def history_finally_block history_catch_block Let_def
      split: stream_item.splits)

lemma history_art_step: "history (snd (art_step outcome (op, s))) = history s"
  by (simp add: art_step_def split: art_outcome.splits)

lemma history_ok_fetch_step:
  assumes "history_ok lower (history s)"
  shows "history_ok lower (history (snd (fetch_step lower ev (op, s))))"
proof (cases ev)
  case (StreamEv item now)
  with history_stream_step [of lower item now op s] assms show ?thesis
    by (auto simp: history_ok_setHistory_updater)
next
  case (ArtEv outcome)
  with assms show ?thesis by (simp add: history_art_step)
qed

lemma history_ok_fetch_run:
  "history_ok lower (history s) \<Longrightarrow> history_ok lower (history (snd (fetch_run lower evs (op, s))))"
proof (induction evs arbitrary: op s)
  case Nil
  then show ?case by simp
next
  case (Cons ev evs)
  obtain op' s' where st: "fetch_step lower ev (op, s) = (op', s')"
    by (cases "fetch_step lower ev (op, s)")
  with history_ok_fetch_step [OF Cons.prems, of ev op] have "history_ok lower (history s')" by simp
  from Cons.IH [OF this, of op'] st show ?case by simp
qed

section \<open>Facts about topic changes\<close>

lemma setCurrentTopic_new:
  assumes "newTopic \<noteq> currentTopic (app sys)" and "newTopic \<noteq> []"
  shows "setCurrentTopic newTopic now sys =
     sys\<lparr> app := snd (fetchContentAndArt newTopic now ((app sys)\<lparr> currentTopic := newTopic \<rparr>)),
       current := Some (fst (fetchContentAndArt newTopic now ((app sys)\<lparr> currentTopic := newTopic \<rparr>))),
       superseded := (case current sys of None \<Rightarrow> superseded sys
                     | Some op \<Rightarrow> superseded sys @ [cleanup op]) \<rparr>"
  using assms by (simp add: setCurrentTopic_def topic_effect_def Let_def split: prod.splits)

lemma is_reset_fetchContentAndArt: "is_reset (snd (fetchContentAndArt t now s))"
  by (simp add: is_reset_def fetchContentAndArt_def)

lemma currentTopic_fetchContentAndArt:
  "currentTopic (snd (fetchContentAndArt t now s)) = currentTopic s"
  by (simp add: fetchContentAndArt_def)

lemma fst_fetchContentAndArt:
  "fst (fetchContentAndArt t now s) =
     \<lparr> topic = t, isCancelled = False, accumulatedContent = [], startTime = now,
       streamClosed = False, artSettled = False \<rparr>"
  by (simp add: fetchContentAndArt_def)

lemma handleWordClick_handleSearch: "handleWordClick lower w now sys = handleSearch lower w now sys"
  by (simp add: handleWordClick_def handleSearch_def)

lemma handleSearch_trim: "handleSearch lower (trim T) now sys = handleSearch lower T now sys"
  by (simp add: handleSearch_def trim_trim)

lemma first_chunk_content:
  "\<not> startsWith c (js ''Error:'') \<Longrightarrow>
     content (snd (stream_step lower (Chunk c) now'
        (\<lparr> topic = t, isCancelled = False, accumulatedContent = [], startTime = now,
           streamClosed = False, artSettled = False \<rparr>, s))) = c"
  by (simp add: stream_step_def Let_def)


lemma history_setCurrentTopic: "history (app (setCurrentTopic t now sys)) = history (app sys)"
  by (simp add: setCurrentTopic_def topic_effect_def Let_def fetchContentAndArt_def)

section \<open>What every run keeps\<close>

lemma superseded_setCurrentTopic:
  "list_all isCancelled (superseded sys) \<Longrightarrow>
     list_all isCancelled (superseded (setCurrentTopic t now sys))"
  by (simp add: setCurrentTopic_def topic_effect_def Let_def cleanup_def fetchContentAndArt_def
      split: option.splits)

lemma superseded_handleSearch:
  "list_all isCancelled (superseded sys) \<Longrightarrow>
     list_all isCancelled (superseded (handleSearch lower q now sys))"
  by (simp add: handleSearch_def Let_def superseded_setCurrentTopic)

lemma history_handleSearch: "history (app (handleSearch lower q now sys)) = history (app sys)"
  by (simp add: handleSearch_def Let_def history_setCurrentTopic)

lemma deliver_superseded_cancelled:
  assumes "list_all isCancelled (superseded sys)"
  shows "app (deliver_superseded lower i ev sys) = app sys \<and>
         list_all isCancelled (superseded (deliver_superseded lower i ev sys))"
proof (cases "i < length (superseded sys)")
  case False
  with assms show ?thesis by (simp add: deliver_superseded_def)
next
  case True
  let ?op = "superseded sys ! i"
  from assms True have c: "isCancelled ?op" by (simp add: list_all_length)
  obtain op' s' where st: "fetch_step lower ev (?op, app sys) = (op', s')"
    by (cases "fetch_step lower ev (?op, app sys)")
  with fetch_step_cancelled [OF c, of lower ev "app sys"] have s': "s' = app sys" and c': "isCancelled op'"
    by simp_all
  have "list_all isCancelled ((superseded sys)[i := op'])"
    using assms c' by (auto simp: list_all_iff dest: set_update_subset_insert [THEN subsetD])
  with True st s' show ?thesis by (simp add: deliver_superseded_def)
qed

lemma deliver_fields:
  "superseded (deliver lower ev sys) = superseded sys \<and>
   (history_ok lower (history (app sys)) \<longrightarrow> history_ok lower (history (app (deliver lower ev sys))))"
proof (cases "current sys")
  case None
  then show ?thesis by (simp add: deliver_def)
next
  case (Some op)
  obtain op' s' where st: "fetch_step lower ev (op, app sys) = (op', s')"
    by (cases "fetch_step lower ev (op, app sys)")
  with history_ok_fetch_step [of lower "app sys" ev op] Some show ?thesis
    by (simp add: deliver_def)
qed

lemma deliver_Done_history:
  assumes "current sys = Some op" and "\<not> isCancelled op" and "\<not> streamClosed op"
    and "accumulatedContent op \<noteq> []"
  shows "history (app (deliver lower (StreamEv Done now) sys)) =
           (if history (app sys) \<noteq> [] \<and> lower (last (history (app sys))) = lower (topic op)
            then history (app sys)
            else drop (Suc (length (history (app sys))) - 15) (history (app sys) @ [topic op]))"
  using assms
  by (simp add: deliver_def stream_step_def history_finally_block setHistory_updater_eq)

lemma current_ok_deliver: "current_ok sys \<Longrightarrow> current_ok (deliver lower ev sys)"
proof (cases "current sys")
  case None
  assume "current_ok sys"
  with None show ?thesis by (simp add: deliver_def)
next
  case (Some op)
  assume ok: "current_ok sys"
  obtain op' s' where st: "fetch_step lower ev (op, app sys) = (op', s')"
    by (cases "fetch_step lower ev (op, app sys)")
  with fetch_step_frame [of lower ev op "app sys"] have
    "isCancelled op' = isCancelled op" "topic op' = topic op" "currentTopic s' = currentTopic (app sys)"
    by simp_all
  with ok Some st show ?thesis by (simp add: deliver_def current_ok_def)
qed

lemma current_ok_setCurrentTopic: "current_ok sys \<Longrightarrow> current_ok (setCurrentTopic t now sys)"
  by (simp add: setCurrentTopic_def topic_effect_def Let_def fetchContentAndArt_def current_ok_def)

lemma current_ok_deliver_superseded:
  assumes "list_all isCancelled (superseded sys)" and "current_ok sys"
  shows "current_ok (deliver_superseded lower i ev sys)"
proof -
  have "current (deliver_superseded lower i ev sys) = current sys"
    by (simp add: deliver_superseded_def split: prod.splits)
  moreover have "app (deliver_superseded lower i ev sys) = app sys"
    using deliver_superseded_cancelled [OF assms(1), of lower i ev] by blast
  ultimately show ?thesis using assms(2) by (simp add: current_ok_def split: option.splits)
qed

lemma sys_ok_mount: "sys_ok lower (mount now)"
  by (simp add: sys_ok_def current_ok_def mount_def topic_effect_def fetchContentAndArt_def
      initial_state_def history_ok_def js_def)

lemma sys_ok_setCurrentTopic: "sys_ok lower sys \<Longrightarrow> sys_ok lower (setCurrentTopic t now sys)"
  by (simp add: sys_ok_def superseded_setCurrentTopic history_setCurrentTopic
      current_ok_setCurrentTopic)

lemma sys_ok_handleSearch: "sys_ok lower sys \<Longrightarrow> sys_ok lower (handleSearch lower q now sys)"
  by (simp add: handleSearch_def Let_def sys_ok_setCurrentTopic)

lemma translate_step_frame:
  "history (snd (translate_step item (op, s))) = history s \<and>
   currentTopic (snd (translate_step item (op, s))) = currentTopic s"
  by (simp add: translate_step_def translate_finally_def translate_catch_def Let_def
      split: stream_item.splits)

lemma sys_ok_translate: "sys_ok lower sys \<Longrightarrow> sys_ok lower (translate sys)"
  by (simp add: sys_ok_def current_ok_def translate_def handleTranslate_def split: option.splits)

lemma sys_ok_deliver_translation:
  assumes "sys_ok lower sys"
  shows "sys_ok lower (deliver_translation i item sys)"
proof (cases "i < length (translation_ops sys)")
  case False
  with assms show ?thesis by (simp add: deliver_translation_def)
next
  case True
  obtain op' s' where st: "translate_step item (translation_ops sys ! i, app sys) = (op', s')"
    by (cases "translate_step item (translation_ops sys ! i, app sys)")
  with translate_step_frame [of item "translation_ops sys ! i" "app sys"]
  have "history s' = history (app sys)" "currentTopic s' = currentTopic (app sys)" by simp_all
  with assms True st show ?thesis
    by (simp add: deliver_translation_def sys_ok_def current_ok_def split: option.splits)
qed

lemma sys_ok_step:
  assumes "sys_ok lower sys"
  shows "sys_ok lower (sys_step lower ev sys)"
proof (cases ev)
  case (Search q now)
  with assms show ?thesis by (simp add: sys_ok_handleSearch)
next
  case (WordClick w now)
  with assms show ?thesis by (simp add: handleWordClick_handleSearch sys_ok_handleSearch)
next
  case RandomBegin
  with assms show ?thesis
    by (simp add: sys_ok_def current_ok_def handleRandom_begin_def split: option.splits)
next
  case (RandomSettle topic0 outcome draw k now)
  have "sys_ok lower sys'" if "fst (handleRandom_settle lower topic0 outcome draw k now sys) = Inr sys'"
    for sys'
    using that assms
    by (auto simp: handleRandom_settle_def sys_ok_setCurrentTopic
        split: sum.splits option.splits if_splits prod.splits)
  with RandomSettle assms show ?thesis by (simp split: sum.splits)
next
  case (Deliver e)
  with assms deliver_fields [of lower e sys] current_ok_deliver [of sys lower e]
  show ?thesis by (simp add: sys_ok_def)
next
  case (DeliverSuperseded i e)
  with assms deliver_superseded_cancelled [of sys lower i e]
    current_ok_deliver_superseded [of sys lower i e]
  show ?thesis by (simp add: sys_ok_def)
next
  case Translate
  with assms show ?thesis by (simp add: sys_ok_translate)
next
  case (DeliverTranslation i item)
  with assms show ?thesis by (simp add: sys_ok_deliver_translation)
next
  case (LanguageChange l)
  with assms show ?thesis
    by (simp add: sys_ok_def current_ok_def handleLanguageChange_def split: option.splits)
qed

lemma sys_ok_run: "sys_ok lower sys \<Longrightarrow> sys_ok lower (sys_run lower evs sys)"
  by (induction evs arbitrary: sys) (simp_all add: sys_ok_step)

lemma reachable_ok:
  "list_all isCancelled (superseded (sys_run lower evs (mount t0))) \<and>
   history_ok lower (history (app (sys_run lower evs (mount t0))))"
  using sys_ok_run [OF sys_ok_mount, of lower evs t0] by (simp add: sys_ok_def)

lemma reachable_current:
  "current (sys_run lower evs (mount t0)) = Some op \<Longrightarrow>
     \<not> isCancelled op \<and> topic op = currentTopic (app (sys_run lower evs (mount t0)))"
  using sys_ok_run [OF sys_ok_mount, of lower evs t0] by (simp add: sys_ok_def current_ok_def)

section \<open>Some runs, evaluated\<close>

text \<open>
  The first topic with one chunk received; the first topic completed; the first topic
  left behind by a search while its stream is still open; a search right after the start;
  two topics completed; the random action invoked on the second and followed by a click on
  the history entry of the first; the random action invoked on two other topics.
\<close>

lemma example_running:
  "sys_run toLowerCase_ascii [Deliver (StreamEv (Chunk (js ''Hyper'')) 1)] (mount 0) =
     \<lparr> app = initial_state\<lparr> content := js ''Hyper'' \<rparr>,
       current = Some \<lparr> topic = js ''Hypertext'', isCancelled = False,
                        accumulatedContent = js ''Hyper'', startTime = 0,
                        streamClosed = False, artSettled = False \<rparr>,
       superseded = [], translation_ops = [] \<rparr>"
  by (simp add: deliver_def mount_def topic_effect_def fetchContentAndArt_def initial_state_def
      stream_step_def startsWith_def js_def Let_def)

lemma example_loaded:
  "sys_run toLowerCase_ascii
      [Deliver (StreamEv (Chunk (js ''Text'')) 1), Deliver (StreamEv Done 2)] (mount 0) =
     \<lparr> app = initial_state\<lparr> content := js ''Text'', isLoading := False,
               generationTime := Some 2, history := [js ''Hypertext''] \<rparr>,
       current = Some \<lparr> topic = js ''Hypertext'', isCancelled = False,
                        accumulatedContent = js ''Text'', startTime = 0,
                        streamClosed = True, artSettled = False \<rparr>,
       superseded = [], translation_ops = [] \<rparr>"
  by (simp add: deliver_def mount_def topic_effect_def fetchContentAndArt_def initial_state_def
      stream_step_def finally_block_def setHistory_updater_def startsWith_def js_def Let_def)

lemma example_superseded:
  "sys_run toLowerCase_ascii
      [Deliver (StreamEv (Chunk (js ''Hyper'')) 1), Search (js ''Wiki'') 3] (mount 0) =
     \<lparr> app = initial_state\<lparr> currentTopic := js ''Wiki'' \<rparr>,
       current = Some \<lparr> topic = js ''Wiki'', isCancelled = False, accumulatedContent = [],
                        startTime = 3, streamClosed = False, artSettled = False \<rparr>,
       superseded = [\<lparr> topic = js ''Hypertext'', isCancelled = True,
                        accumulatedContent = js ''Hyper'', startTime = 0,
                        streamClosed = False, artSettled = False \<rparr>],
       translation_ops = [] \<rparr>"
  by (simp add: deliver_def mount_def topic_effect_def fetchContentAndArt_def initial_state_def
      stream_step_def handleSearch_def setCurrentTopic_def trim_def isWhiteSpace_def
      toLowerCase_ascii_def cleanup_def startsWith_def js_def Let_def)

lemma example_motion:
  "sys_run toLowerCase_ascii [Search (js ''Motion and stillness'') 3] (mount 0) =
     \<lparr> app = initial_state\<lparr> currentTopic := js ''Motion and stillness'' \<rparr>,
       current = Some \<lparr> topic = js ''Motion and stillness'', isCancelled = False,
                        accumulatedContent = [], startTime = 3, streamClosed = False,
                        artSettled = False \<rparr>,
       superseded = [\<lparr> topic = js ''Hypertext'', isCancelled = True, accumulatedContent = [],
                        startTime = 0, streamClosed = False, artSettled = False \<rparr>],
       translation_ops = [] \<rparr>"
  by (simp add: mount_def topic_effect_def fetchContentAndArt_def initial_state_def
      handleSearch_def setCurrentTopic_def trim_def isWhiteSpace_def
      toLowerCase_ascii_def cleanup_def js_def Let_def)






section \<open>The claims\<close>

subsection \<open>C1: a chunk that begins with "Error:"\<close>

text \<open>
  C1 (as amended). For every definition stream whose fetch has not been cancelled, a
  received chunk that begins with the literal prefix \<^verbatim>\<open>Error:\<close> ends the accumulation,
  sets the content to the empty string and sets the error to the chunk itself, unchanged;
  the same step records the generation time and clears the loading flag. This holds for
  the stream of the current topic after any run of the component, since the fetch of the
  current topic is never cancelled, and for any fetch whose flag is not set. Once the loop
  is left, no later delivery of the stream changes anything.
\<close>

theorem error_chunk_aborts_stream:
  "(current (sys_run lower evs (mount t0)) = Some op \<and> \<not> streamClosed op \<and>
    startsWith chunk (js ''Error:'') \<longrightarrow>
      deliver lower (StreamEv (Chunk chunk) now) (sys_run lower evs (mount t0)) =
        (sys_run lower evs (mount t0))
          \<lparr> app := (app (sys_run lower evs (mount t0)))
                 \<lparr> error := Some chunk, content := [],
                   generationTime := Some (now - startTime op), isLoading := False \<rparr>,
            current := Some (op\<lparr> streamClosed := True \<rparr>) \<rparr>) \<and>
   (\<not> isCancelled op \<and> \<not> streamClosed op \<and> startsWith chunk (js ''Error:'') \<longrightarrow>
      stream_step lower (Chunk chunk) now (op, s) =
        (op\<lparr> streamClosed := True \<rparr>,
         s\<lparr> error := Some chunk, content := [],
            generationTime := Some (now - startTime op), isLoading := False \<rparr>)) \<and>
   stream_step lower item now' (op\<lparr> streamClosed := True \<rparr>, s') =
     (op\<lparr> streamClosed := True \<rparr>, s')"
proof -
  let ?sys = "sys_run lower evs (mount t0)"
  have a: "deliver lower (StreamEv (Chunk chunk) now) ?sys =
        ?sys\<lparr> app := (app ?sys)\<lparr> error := Some chunk, content := [],
                   generationTime := Some (now - startTime op), isLoading := False \<rparr>,
          current := Some (op\<lparr> streamClosed := True \<rparr>) \<rparr>"
    if h: "current ?sys = Some op" "\<not> streamClosed op" "startsWith chunk (js ''Error:'')"
  proof -
    from reachable_current [OF h(1)] have nc: "\<not> isCancelled op" by blast
    show ?thesis
      by (simp add: deliver_def h(1) stream_step_error_chunk [OF nc h(2) h(3)])
  qed
  from a stream_step_error_chunk [of op chunk lower now s] stream_step_closed [of lower item now' op s']
  show ?thesis by blast
qed

text \<open>
  The chunk \<^verbatim>\<open>Error: Network down\<close>, received after the chunk \<^verbatim>\<open>Hyper\<close> of the
  first topic: the error shown is exactly that string and the content is empty again.
\<close>

theorem error_chunk_aborts_stream_witness:
  "current (sys_run toLowerCase_ascii [Deliver (StreamEv (Chunk (js ''Hyper'')) 1)] (mount 0)) =
     Some \<lparr> topic = js ''Hypertext'', isCancelled = False, accumulatedContent = js ''Hyper'',
            startTime = 0, streamClosed = False, artSettled = False \<rparr> \<and>
   startsWith (js ''Error: Network down'') (js ''Error:'') \<and>
   content (app (sys_run toLowerCase_ascii [Deliver (StreamEv (Chunk (js ''Hyper'')) 1)] (mount 0))) =
     js ''Hyper'' \<and>
   error (app (deliver toLowerCase_ascii (StreamEv (Chunk (js ''Error: Network down'')) 2)
     (sys_run toLowerCase_ascii [Deliver (StreamEv (Chunk (js ''Hyper'')) 1)] (mount 0)))) =
     Some (js ''Error: Network down'') \<and>
   content (app (deliver toLowerCase_ascii (StreamEv (Chunk (js ''Error: Network down'')) 2)
     (sys_run toLowerCase_ascii [Deliver (StreamEv (Chunk (js ''Hyper'')) 1)] (mount 0)))) = []"
proof -
  let ?sys = "sys_run toLowerCase_ascii [Deliver (StreamEv (Chunk (js ''Hyper'')) 1)] (mount 0)"
  let ?op = "\<lparr> topic = js ''Hypertext'', isCancelled = False, accumulatedContent = js ''Hyper'',
            startTime = 0, streamClosed = False, artSettled = False \<rparr>"
  let ?c = "js ''Error: Network down''"
  have h1: "current ?sys = Some ?op" by (simp only: example_running) simp
  have h2: "\<not> streamClosed ?op" "\<not> isCancelled ?op" by simp_all
  have h3: "startsWith ?c (js ''Error:'')" by (simp add: startsWith_def js_def)
  have co: "content (app ?sys) = js ''Hyper''" by (simp only: example_running) simp
  from error_chunk_aborts_stream [where lower = toLowerCase_ascii
      and evs = "[Deliver (StreamEv (Chunk (js ''Hyper'')) 1)]" and ?t0.0 = 0 and op = ?op
      and chunk = ?c and now = 2] h1 h2 h3
  have "deliver toLowerCase_ascii (StreamEv (Chunk ?c) 2) ?sys =
        ?sys\<lparr> app := (app ?sys)\<lparr> error := Some ?c, content := [],
                   generationTime := Some (2 - startTime ?op), isLoading := False \<rparr>,
          current := Some (?op\<lparr> streamClosed := True \<rparr>) \<rparr>"
    by blast
  then have "error (app (deliver toLowerCase_ascii (StreamEv (Chunk ?c) 2) ?sys)) = Some ?c"
    and "content (app (deliver toLowerCase_ascii (StreamEv (Chunk ?c) 2) ?sys)) = []"
    by simp_all
  with h1 h3 co show ?thesis by blast
qed

text \<open>
  C1 as stated, for every definition stream, fails for a stream whose fetch has been
  cancelled by a topic change: the stream of \<^verbatim>\<open>Hypertext\<close>, left behind by the search
  for \<^verbatim>\<open>Wiki\<close>, delivers \<^verbatim>\<open>Error: Network down\<close>, and no error is set.
\<close>

theorem error_chunk_after_cancel_counterexample:
  "map topic (superseded (sys_run toLowerCase_ascii
      [Deliver (StreamEv (Chunk (js ''Hyper'')) 1), Search (js ''Wiki'') 3] (mount 0))) =
     [js ''Hypertext''] \<and>
   startsWith (js ''Error: Network down'') (js ''Error:'') \<and>
   error (app (deliver_superseded toLowerCase_ascii 0
      (StreamEv (Chunk (js ''Error: Network down'')) 5)
      (sys_run toLowerCase_ascii
         [Deliver (StreamEv (Chunk (js ''Hyper'')) 1), Search (js ''Wiki'') 3] (mount 0)))) = None"
  by (simp only: example_superseded)
     (simp add: deliver_superseded_def stream_step_def finally_block_def initial_state_def
      startsWith_def js_def)

subsection \<open>C2: the history\<close>

text \<open>
  C2. After any run of the component (searches, word clicks, random topics, translations
  and deliveries to current and superseded fetches, in any order), and after any sequence
  of topic completions from the empty history, the history has at most 15 entries and no
  two neighbouring entries that are equal up to case; every run of a single fetch keeps
  both properties. When the stream of the current topic ends with non-empty accumulated
  content, the topic is appended, the history keeping its last 15 entries, unless the topic
  equals the last entry up to case, in which case the history stays as it is. The case
  mapping \<open>lower\<close> is arbitrary.
\<close>

theorem history_invariant:
  "history_ok lower (history (app (sys_run lower evs (mount t0)))) \<and>
   history_ok lower (foldl (\<lambda>h t. setHistory_updater lower t h) [] topics) \<and>
   (history_ok lower (history s) \<longrightarrow>
      history_ok lower (history (snd (fetch_run lower fevs (op', s))))) \<and>
   (current (sys_run lower evs (mount t0)) = Some op \<and> \<not> streamClosed op \<and>
    accumulatedContent op \<noteq> [] \<longrightarrow>
      topic op = currentTopic (app (sys_run lower evs (mount t0))) \<and>
      history (app (deliver lower (StreamEv Done now) (sys_run lower evs (mount t0)))) =
        (if history (app (sys_run lower evs (mount t0))) \<noteq> [] \<and>
            lower (last (history (app (sys_run lower evs (mount t0))))) = lower (topic op)
         then history (app (sys_run lower evs (mount t0)))
         else drop (Suc (length (history (app (sys_run lower evs (mount t0))))) - 15)
                (history (app (sys_run lower evs (mount t0))) @ [topic op])))"
proof -
  let ?sys = "sys_run lower evs (mount t0)"
  have r: "history_ok lower (history (app ?sys))"
    using reachable_ok by blast
  have a: "history_ok lower (foldl (\<lambda>h t. setHistory_updater lower t h) [] topics)"
    using history_ok_foldl [OF history_ok_Nil] .
  have b: "history_ok lower (history s) \<longrightarrow>
      history_ok lower (history (snd (fetch_run lower fevs (op', s))))"
    using history_ok_fetch_run by blast
  have c: "topic op = currentTopic (app ?sys) \<and>
      history (app (deliver lower (StreamEv Done now) ?sys)) =
        (if history (app ?sys) \<noteq> [] \<and> lower (last (history (app ?sys))) = lower (topic op)
         then history (app ?sys)
         else drop (Suc (length (history (app ?sys))) - 15) (history (app ?sys) @ [topic op]))"
    if h: "current ?sys = Some op" "\<not> streamClosed op" "accumulatedContent op \<noteq> []"
  proof -
    from reachable_current [OF h(1)] have nc: "\<not> isCancelled op"
      and tp: "topic op = currentTopic (app ?sys)" by blast+
    from tp deliver_Done_history [OF h(1) nc h(2) h(3), of lower now] show ?thesis by blast
  qed
  from r a b c show ?thesis by blast
qed

text \<open>
  The first topic, completed after one chunk: the history becomes the single entry
  \<^verbatim>\<open>Hypertext\<close>.
\<close>

theorem history_invariant_witness:
  "history_ok toLowerCase_ascii (history initial_state) \<and>
   history_ok toLowerCase_ascii (history (snd (fetch_run toLowerCase_ascii [StreamEv Done 2]
      (fetchContentAndArt (js ''Hypertext'') 0 initial_state)))) \<and>
   current (sys_run toLowerCase_ascii [Deliver (StreamEv (Chunk (js ''Hyper'')) 1)] (mount 0)) =
     Some \<lparr> topic = js ''Hypertext'', isCancelled = False, accumulatedContent = js ''Hyper'',
            startTime = 0, streamClosed = False, artSettled = False \<rparr> \<and>
   history (app (sys_run toLowerCase_ascii [Deliver (StreamEv (Chunk (js ''Hyper'')) 1)] (mount 0))) =
     [] \<and>
   history (app (deliver toLowerCase_ascii (StreamEv Done 2)
     (sys_run toLowerCase_ascii [Deliver (StreamEv (Chunk (js ''Hyper'')) 1)] (mount 0)))) =
     [js ''Hypertext'']"
proof -
  let ?sys = "sys_run toLowerCase_ascii [Deliver (StreamEv (Chunk (js ''Hyper'')) 1)] (mount 0)"
  let ?op = "\<lparr> topic = js ''Hypertext'', isCancelled = False, accumulatedContent = js ''Hyper'',
            startTime = 0, streamClosed = False, artSettled = False \<rparr>"
  let ?st = "fetchContentAndArt (js ''Hypertext'') 0 initial_state"
  have h0: "history_ok toLowerCase_ascii (history initial_state)"
    by (simp add: history_ok_def initial_state_def)
  have h1: "current ?sys = Some ?op" by (simp only: example_running) simp
  have h2: "\<not> streamClosed ?op" by simp
  have h3: "accumulatedContent ?op \<noteq> []" by (simp add: js_def)
  have hs: "history (app ?sys) = []" by (simp only: example_running) (simp add: initial_state_def)
  have tp: "topic ?op = js ''Hypertext''" by simp
  note inv = history_invariant [where lower = toLowerCase_ascii
      and evs = "[Deliver (StreamEv (Chunk (js ''Hyper'')) 1)]" and ?t0.0 = 0
      and s = initial_state and fevs = "StreamEv Done 2 # []" and op' = "fst ?st" and op = ?op
      and now = 2]
  from inv h0 have "history_ok toLowerCase_ascii
      (history (snd (fetch_run toLowerCase_ascii [StreamEv Done 2] (fst ?st, initial_state))))"
    by blast
  moreover have "snd ?st = initial_state"
    by (simp add: fetchContentAndArt_def initial_state_def)
  ultimately have a: "history_ok toLowerCase_ascii
      (history (snd (fetch_run toLowerCase_ascii [StreamEv Done 2] ?st)))"
    by (metis prod.collapse)
  from inv h1 h2 h3 have "history (app (deliver toLowerCase_ascii (StreamEv Done 2) ?sys)) =
        (if history (app ?sys) \<noteq> [] \<and>
            toLowerCase_ascii (last (history (app ?sys))) = toLowerCase_ascii (topic ?op)
         then history (app ?sys)
         else drop (Suc (length (history (app ?sys))) - 15) (history (app ?sys) @ [topic ?op]))"
    by blast
  then have b: "history (app (deliver toLowerCase_ascii (StreamEv Done 2) ?sys)) = [js ''Hypertext'']"
    by (simp only: hs tp) simp
  from h0 a h1 hs b show ?thesis by blast
qed

subsection \<open>C3: a cancelled fetch writes nothing\<close>

text \<open>
  C3. A topic change hands the fetch of the previous topic its cancellation: the closure
  is kept with its flag set. After any run of the component every fetch left behind has
  its flag set, and no delivery to it, from the definition stream or from the art call,
  changes the state of the component: content, art, error, loading, generation time and
  history all stay. For a single fetch: once the flag is set, every delivery leaves the
  state as it is, whatever that state is, and leaves the flag set.
\<close>

theorem cancelled_fetch_writes_nothing:
  "list_all isCancelled (superseded (sys_run lower evs (mount t0))) \<and>
   app (deliver_superseded lower i ev (sys_run lower evs (mount t0))) =
     app (sys_run lower evs (mount t0)) \<and>
   (current sys = Some op \<and> newTopic \<noteq> currentTopic (app sys) \<longrightarrow>
      superseded (setCurrentTopic newTopic now sys) = superseded sys @ [cleanup op]) \<and>
   (isCancelled op \<longrightarrow>
      snd (fetch_step lower ev (op, s)) = s \<and> isCancelled (fst (fetch_step lower ev (op, s)))) \<and>
   snd (fetch_run lower fevs (cleanup op, s)) = s"
proof -
  have r: "list_all isCancelled (superseded (sys_run lower evs (mount t0)))"
    using reachable_ok by blast
  then have d: "app (deliver_superseded lower i ev (sys_run lower evs (mount t0))) =
     app (sys_run lower evs (mount t0))"
    using deliver_superseded_cancelled by blast
  have a: "isCancelled op \<longrightarrow>
      snd (fetch_step lower ev (op, s)) = s \<and> isCancelled (fst (fetch_step lower ev (op, s)))"
    using fetch_step_cancelled by blast
  have "isCancelled (cleanup op)" by (simp add: cleanup_def)
  then have b: "snd (fetch_run lower fevs (cleanup op, s)) = s"
    using fetch_run_cancelled by blast
  have c: "current sys = Some op \<and> newTopic \<noteq> currentTopic (app sys) \<longrightarrow>
      superseded (setCurrentTopic newTopic now sys) = superseded sys @ [cleanup op]"
    by (simp add: setCurrentTopic_def topic_effect_def Let_def fetchContentAndArt_def
        split: prod.splits)
  from r d a b c show ?thesis by blast
qed

text \<open>
  The fetch of the first topic, cancelled by the search for \<^verbatim>\<open>Wiki\<close>, then receiving a
  chunk.
\<close>

theorem cancelled_fetch_writes_nothing_witness:
  "app (deliver_superseded toLowerCase_ascii 0 (StreamEv (Chunk (js ''text'')) 4)
      (sys_run toLowerCase_ascii
         [Deliver (StreamEv (Chunk (js ''Hyper'')) 1), Search (js ''Wiki'') 3] (mount 0))) =
     initial_state\<lparr> currentTopic := js ''Wiki'' \<rparr> \<and>
   current (sys_run toLowerCase_ascii [Deliver (StreamEv (Chunk (js ''Hyper'')) 1)] (mount 0)) =
     Some \<lparr> topic = js ''Hypertext'', isCancelled = False, accumulatedContent = js ''Hyper'',
            startTime = 0, streamClosed = False, artSettled = False \<rparr> \<and>
   js ''Wiki'' \<noteq> currentTopic (app
     (sys_run toLowerCase_ascii [Deliver (StreamEv (Chunk (js ''Hyper'')) 1)] (mount 0))) \<and>
   superseded (setCurrentTopic (js ''Wiki'') 3
     (sys_run toLowerCase_ascii [Deliver (StreamEv (Chunk (js ''Hyper'')) 1)] (mount 0))) =
     [\<lparr> topic = js ''Hypertext'', isCancelled = True, accumulatedContent = js ''Hyper'',
        startTime = 0, streamClosed = False, artSettled = False \<rparr>] \<and>
   isCancelled \<lparr> topic = js ''Hypertext'', isCancelled = True, accumulatedContent = js ''Hyper'',
        startTime = 0, streamClosed = False, artSettled = False \<rparr> \<and>
   fetch_step toLowerCase_ascii (StreamEv (Chunk (js ''text'')) 4)
     (\<lparr> topic = js ''Hypertext'', isCancelled = True, accumulatedContent = js ''Hyper'',
        startTime = 0, streamClosed = False, artSettled = False \<rparr>,
      initial_state\<lparr> currentTopic := js ''Wiki'' \<rparr>) =
     (\<lparr> topic = js ''Hypertext'', isCancelled = True, accumulatedContent = js ''Hyper'',
        startTime = 0, streamClosed = True, artSettled = False \<rparr>,
      initial_state\<lparr> currentTopic := js ''Wiki'' \<rparr>)"
proof -
  let ?op = "\<lparr> topic = js ''Hypertext'', isCancelled = False, accumulatedContent = js ''Hyper'',
            startTime = 0, streamClosed = False, artSettled = False \<rparr>"
  let ?cop = "\<lparr> topic = js ''Hypertext'', isCancelled = True, accumulatedContent = js ''Hyper'',
            startTime = 0, streamClosed = False, artSettled = False \<rparr>"
  let ?sys1 = "sys_run toLowerCase_ascii [Deliver (StreamEv (Chunk (js ''Hyper'')) 1)] (mount 0)"
  let ?sys2 = "sys_run toLowerCase_ascii
         [Deliver (StreamEv (Chunk (js ''Hyper'')) 1), Search (js ''Wiki'') 3] (mount 0)"
  let ?s = "initial_state\<lparr> currentTopic := js ''Wiki'' \<rparr>"
  let ?ev = "StreamEv (Chunk (js ''text'')) 4"
  have c1: "current ?sys1 = Some ?op"
    by (simp add: deliver_def mount_def topic_effect_def fetchContentAndArt_def
        initial_state_def stream_step_def startsWith_def js_def Let_def)
  have s1: "superseded ?sys1 = []"
    by (simp add: deliver_def mount_def topic_effect_def fetchContentAndArt_def
        initial_state_def stream_step_def startsWith_def js_def Let_def)
  have t1: "js ''Wiki'' \<noteq> currentTopic (app ?sys1)"
    by (simp add: deliver_def mount_def topic_effect_def fetchContentAndArt_def
        initial_state_def stream_step_def startsWith_def js_def Let_def)
  have cl: "cleanup ?op = ?cop" by (simp add: cleanup_def)
  have h: "isCancelled ?cop" by simp
  have a2: "app ?sys2 = ?s" by (simp only: example_superseded) simp
  note run = cancelled_fetch_writes_nothing [where lower = toLowerCase_ascii and i = 0
      and ev = ?ev and evs = "[Deliver (StreamEv (Chunk (js ''Hyper'')) 1), Search (js ''Wiki'') 3]"
      and ?t0.0 = 0 and sys = ?sys1 and op = ?op and newTopic = "js ''Wiki''" and now = 3]
  note step = cancelled_fetch_writes_nothing [where lower = toLowerCase_ascii
      and ev = ?ev and op = ?cop and s = ?s]
  from run have a: "app (deliver_superseded toLowerCase_ascii 0 ?ev ?sys2) = ?s"
    unfolding a2 by blast
  from run c1 t1 have "superseded (setCurrentTopic (js ''Wiki'') 3 ?sys1) =
      superseded ?sys1 @ [cleanup ?op]" by blast
  then have b: "superseded (setCurrentTopic (js ''Wiki'') 3 ?sys1) = [?cop]"
    by (simp only: s1 cl append_Nil)
  from step h have c: "snd (fetch_step toLowerCase_ascii ?ev (?cop, ?s)) = ?s" by blast
  have "fst (fetch_step toLowerCase_ascii ?ev (?cop, ?s)) = ?cop\<lparr> streamClosed := True \<rparr>"
    by (simp add: stream_step_def)
  with c have d: "fetch_step toLowerCase_ascii ?ev (?cop, ?s) = (?cop\<lparr> streamClosed := True \<rparr>, ?s)"
    by (simp add: prod_eq_iff)
  have e: "?cop\<lparr> streamClosed := True \<rparr> =
      \<lparr> topic = js ''Hypertext'', isCancelled = True, accumulatedContent = js ''Hyper'',
        startTime = 0, streamClosed = True, artSettled = False \<rparr>" by simp
  from a c1 t1 b h d show ?thesis unfolding e by blast
qed

subsection \<open>C4: selecting a topic\<close>

text \<open>
  C4 (as amended). For all topics T whose trimmed form is non-empty and differs, up to
  case, from the current topic, selecting T by a search or by a word click makes the
  trimmed T the current topic and resets the display before any chunk of the new
  definition is consumed: content, error, art, generation time and all translation state
  are cleared and loading is set, and the new fetch starts with nothing accumulated, so
  that the first chunk displayed is that chunk alone. Selecting a topic whose trimmed form
  is empty or equals the current topic up to case changes nothing. A word click behaves as
  a search, and a search for the trimmed topic as a search for the topic.
\<close>

theorem selecting_new_topic_resets:
  "(trim T \<noteq> [] \<and> lower (trim T) \<noteq> lower (currentTopic (app sys)) \<longrightarrow>
      handleSearch lower T now sys = setCurrentTopic (trim T) now sys \<and>
      currentTopic (app (handleSearch lower T now sys)) = trim T \<and>
      is_reset (app (handleSearch lower T now sys)) \<and>
      current (handleSearch lower T now sys) =
        Some \<lparr> topic = trim T, isCancelled = False, accumulatedContent = [], startTime = now,
               streamClosed = False, artSettled = False \<rparr> \<and>
      (\<not> startsWith c (js ''Error:'') \<longrightarrow>
         content (app (deliver lower (StreamEv (Chunk c) now') (handleSearch lower T now sys))) = c)) \<and>
   (trim T = [] \<or> lower (trim T) = lower (currentTopic (app sys)) \<longrightarrow>
      handleSearch lower T now sys = sys) \<and>
   handleSearch lower (trim T) now sys = handleSearch lower T now sys \<and>
   handleWordClick lower T now sys = handleSearch lower T now sys"
proof -
  have a: "handleSearch lower T now sys = setCurrentTopic (trim T) now sys \<and>
      currentTopic (app (handleSearch lower T now sys)) = trim T \<and>
      is_reset (app (handleSearch lower T now sys)) \<and>
      current (handleSearch lower T now sys) =
        Some \<lparr> topic = trim T, isCancelled = False, accumulatedContent = [], startTime = now,
               streamClosed = False, artSettled = False \<rparr> \<and>
      (\<not> startsWith c (js ''Error:'') \<longrightarrow>
         content (app (deliver lower (StreamEv (Chunk c) now') (handleSearch lower T now sys))) = c)"
    if h: "trim T \<noteq> []" "lower (trim T) \<noteq> lower (currentTopic (app sys))"
  proof -
    from h have ne: "trim T \<noteq> currentTopic (app sys)" by auto
    from h have hs: "handleSearch lower T now sys = setCurrentTopic (trim T) now sys"
      by (simp add: handleSearch_def Let_def)
    have cur: "current (setCurrentTopic (trim T) now sys) =
        Some \<lparr> topic = trim T, isCancelled = False, accumulatedContent = [], startTime = now,
               streamClosed = False, artSettled = False \<rparr>"
      unfolding setCurrentTopic_new [OF ne h(1)] by (simp add: fst_fetchContentAndArt)
    have chunk: "\<not> startsWith c (js ''Error:'') \<longrightarrow>
         content (app (deliver lower (StreamEv (Chunk c) now') (setCurrentTopic (trim T) now sys))) = c"
      using first_chunk_content [of c lower now' "trim T" now "app (setCurrentTopic (trim T) now sys)"]
      by (auto simp: deliver_def cur split: prod.splits)
    show ?thesis
      unfolding hs using cur chunk
      by (simp add: setCurrentTopic_new [OF ne h(1)] is_reset_fetchContentAndArt
          currentTopic_fetchContentAndArt)
  qed
  have b: "trim T = [] \<or> lower (trim T) = lower (currentTopic (app sys)) \<longrightarrow>
      handleSearch lower T now sys = sys"
    by (auto simp: handleSearch_def Let_def)
  from a b handleWordClick_handleSearch [of lower T now sys] handleSearch_trim [of lower T now sys]
  show ?thesis by blast
qed

text \<open>
  Searching for \<^verbatim>\<open>Wiki\<close>, with blanks around it, while the definition of
  \<^verbatim>\<open>Hypertext\<close> is displayed; and searching for \<^verbatim>\<open>hypertext\<close>.
\<close>

theorem selecting_new_topic_resets_witness:
  "trim (js ''  Wiki '') = js ''Wiki'' \<and>
   toLowerCase_ascii (js ''Wiki'') \<noteq> toLowerCase_ascii (js ''Hypertext'') \<and>
   content (app (sys_run toLowerCase_ascii
      [Deliver (StreamEv (Chunk (js ''Text'')) 1), Deliver (StreamEv Done 2)] (mount 0))) =
     js ''Text'' \<and>
   currentTopic (app (handleSearch toLowerCase_ascii (js ''  Wiki '') 7
      (sys_run toLowerCase_ascii
         [Deliver (StreamEv (Chunk (js ''Text'')) 1), Deliver (StreamEv Done 2)] (mount 0)))) =
     js ''Wiki'' \<and>
   is_reset (app (handleSearch toLowerCase_ascii (js ''  Wiki '') 7
      (sys_run toLowerCase_ascii
         [Deliver (StreamEv (Chunk (js ''Text'')) 1), Deliver (StreamEv Done 2)] (mount 0)))) \<and>
   \<not> startsWith (js ''A wiki'') (js ''Error:'') \<and>
   content (app (deliver toLowerCase_ascii (StreamEv (Chunk (js ''A wiki'')) 8)
      (handleSearch toLowerCase_ascii (js ''  Wiki '') 7
         (sys_run toLowerCase_ascii
            [Deliver (StreamEv (Chunk (js ''Text'')) 1), Deliver (StreamEv Done 2)] (mount 0))))) =
     js ''A wiki'' \<and>
   toLowerCase_ascii (trim (js ''hypertext'')) = toLowerCase_ascii (js ''Hypertext'') \<and>
   handleSearch toLowerCase_ascii (js ''hypertext'') 7
      (sys_run toLowerCase_ascii
         [Deliver (StreamEv (Chunk (js ''Text'')) 1), Deliver (StreamEv Done 2)] (mount 0)) =
     sys_run toLowerCase_ascii
        [Deliver (StreamEv (Chunk (js ''Text'')) 1), Deliver (StreamEv Done 2)] (mount 0)"
proof -
  let ?sys = "sys_run toLowerCase_ascii
      [Deliver (StreamEv (Chunk (js ''Text'')) 1), Deliver (StreamEv Done 2)] (mount 0)"
  have t: "trim (js ''  Wiki '') = js ''Wiki''"
    by (simp add: trim_def isWhiteSpace_def js_def)
  have ct: "currentTopic (app ?sys) = js ''Hypertext''"
    by (simp only: example_loaded) (simp add: initial_state_def)
  have co: "content (app ?sys) = js ''Text''"
    by (simp only: example_loaded) simp
  have l: "toLowerCase_ascii (js ''Wiki'') \<noteq> toLowerCase_ascii (js ''Hypertext'')"
    by (simp add: toLowerCase_ascii_def js_def)
  have h1: "trim (js ''  Wiki '') \<noteq> [] \<and>
      toLowerCase_ascii (trim (js ''  Wiki '')) \<noteq> toLowerCase_ascii (currentTopic (app ?sys))"
    unfolding t ct using l by (simp add: js_def)
  have h2: "\<not> startsWith (js ''A wiki'') (js ''Error:'')"
    by (simp add: startsWith_def js_def)
  have e: "toLowerCase_ascii (trim (js ''hypertext'')) = toLowerCase_ascii (js ''Hypertext'')"
    by (simp add: trim_def isWhiteSpace_def toLowerCase_ascii_def js_def)
  then have h3: "trim (js ''hypertext'') = [] \<or>
      toLowerCase_ascii (trim (js ''hypertext'')) = toLowerCase_ascii (currentTopic (app ?sys))"
    unfolding ct by blast
  note new = selecting_new_topic_resets [where T = "js ''  Wiki ''" and lower = toLowerCase_ascii
      and sys = ?sys and now = 7 and c = "js ''A wiki''" and now' = 8]
  note same = selecting_new_topic_resets [where T = "js ''hypertext''" and lower = toLowerCase_ascii
      and sys = ?sys and now = 7]
  from new h1 h2 have
    a: "currentTopic (app (handleSearch toLowerCase_ascii (js ''  Wiki '') 7 ?sys)) =
          trim (js ''  Wiki '')" and
    b: "is_reset (app (handleSearch toLowerCase_ascii (js ''  Wiki '') 7 ?sys))" and
    c: "content (app (deliver toLowerCase_ascii (StreamEv (Chunk (js ''A wiki'')) 8)
          (handleSearch toLowerCase_ascii (js ''  Wiki '') 7 ?sys))) = js ''A wiki''"
    by blast+
  from same h3 have d: "handleSearch toLowerCase_ascii (js ''hypertext'') 7 ?sys = ?sys"
    by blast
  from a have a': "currentTopic (app (handleSearch toLowerCase_ascii (js ''  Wiki '') 7 ?sys)) =
          js ''Wiki''" by (simp only: t)
  from t l co h2 e a' b c d show ?thesis by blast
qed

text \<open>
  C4 as stated, for all topics, fails for the current topic itself: searching for
  \<^verbatim>\<open>hypertext\<close> while the definition of \<^verbatim>\<open>Hypertext\<close> is displayed leaves the content
  on display and loading unset.
\<close>

theorem selecting_current_topic_counterexample:
  "currentTopic (app (sys_run toLowerCase_ascii
      [Deliver (StreamEv (Chunk (js ''Text'')) 1), Deliver (StreamEv Done 2)] (mount 0))) =
     js ''Hypertext'' \<and>
   handleSearch toLowerCase_ascii (js ''hypertext'') 7
      (sys_run toLowerCase_ascii
         [Deliver (StreamEv (Chunk (js ''Text'')) 1), Deliver (StreamEv Done 2)] (mount 0)) =
     sys_run toLowerCase_ascii
        [Deliver (StreamEv (Chunk (js ''Text'')) 1), Deliver (StreamEv Done 2)] (mount 0) \<and>
   content (app (handleSearch toLowerCase_ascii (js ''hypertext'') 7
      (sys_run toLowerCase_ascii
         [Deliver (StreamEv (Chunk (js ''Text'')) 1), Deliver (StreamEv Done 2)] (mount 0)))) =
     js ''Text'' \<and>
   \<not> isLoading (app (handleSearch toLowerCase_ascii (js ''hypertext'') 7
      (sys_run toLowerCase_ascii
         [Deliver (StreamEv (Chunk (js ''Text'')) 1), Deliver (StreamEv Done 2)] (mount 0)))) \<and>
   \<not> is_reset (app (handleSearch toLowerCase_ascii (js ''hypertext'') 7
      (sys_run toLowerCase_ascii
         [Deliver (StreamEv (Chunk (js ''Text'')) 1), Deliver (StreamEv Done 2)] (mount 0))))"
  by (simp only: example_loaded)
     (simp add: handleSearch_def trim_def isWhiteSpace_def toLowerCase_ascii_def js_def
      initial_state_def is_reset_def)

subsection \<open>C5: the random topic\<close>




subsection \<open>C6: the label of the fallback art\<close>

text \<open>
  C6 (as amended). When art generation fails for the current topic, after any run of the
  component, the art becomes the fallback box of that topic, whose middle row is the padded
  label between two vertical bars. The label is the topic itself when the topic has at most
  20 code units, and the first 17 code units followed by three dots when it has more than
  20; so the label never has more than 20 code units. For the topic
  \<^verbatim>\<open>Supercalifragilisticexpialidocious\<close> the label is its first 17 characters followed
  by \<^verbatim>\<open>...\<close>.
\<close>

theorem fallback_art_label:
  "(current (sys_run lower evs (mount t0)) = Some op \<and> \<not> artSettled op \<longrightarrow>
      asciiArt (app (deliver lower (ArtEv ArtRejected) (sys_run lower evs (mount t0)))) =
        Some (createFallbackArt (currentTopic (app (sys_run lower evs (mount t0)))))) \<and>
   art (createFallbackArt t) =
     ([0x250C] @ repeat [0x2500] (length (displayableTopic t) + 2) @ [0x2510]) @ [nl] @
     ([0x2502, 0x20] @ displayableTopic t @ [0x20, 0x2502]) @ [nl] @
     ([0x2514] @ repeat [0x2500] (length (displayableTopic t) + 2) @ [0x2518]) \<and>
   length (displayableTopic t) \<le> 20 \<and>
   (length t \<le> 20 \<longrightarrow> displayableTopic t = t) \<and>
   (20 < length t \<longrightarrow> displayableTopic t = take 17 t @ js ''...'') \<and>
   displayableTopic (js ''Supercalifragilisticexpialidocious'') =
     js ''Supercalifragilis'' @ js ''...''"
proof -
  let ?sys = "sys_run lower evs (mount t0)"
  have a: "asciiArt (app (deliver lower (ArtEv ArtRejected) ?sys)) =
        Some (createFallbackArt (currentTopic (app ?sys)))"
    if h: "current ?sys = Some op" "\<not> artSettled op"
  proof -
    from reachable_current [OF h(1)] have nc: "\<not> isCancelled op"
      and tp: "topic op = currentTopic (app ?sys)" by blast+
    with h show ?thesis by (simp add: deliver_def art_step_def)
  qed
  have e: "displayableTopic (js ''Supercalifragilisticexpialidocious'') =
     js ''Supercalifragilis'' @ js ''...''"
    by (simp add: displayableTopic_def substring_0 js_def)
  from a e art_createFallbackArt [of t] length_displayableTopic [of t]
    displayableTopic_short [of t] displayableTopic_long [of t]
  show ?thesis by blast
qed

text \<open>
  A topic of 20 code units and one of 23, both of the curated list.
\<close>

theorem fallback_art_label_witness:
  "current (sys_run toLowerCase_ascii [Search (js ''Motion and stillness'') 3] (mount 0)) =
     Some \<lparr> topic = js ''Motion and stillness'', isCancelled = False,
            accumulatedContent = [], startTime = 3, streamClosed = False, artSettled = False \<rparr> \<and>
   asciiArt (app (deliver toLowerCase_ascii (ArtEv ArtRejected)
     (sys_run toLowerCase_ascii [Search (js ''Motion and stillness'') 3] (mount 0)))) =
     Some (createFallbackArt (js ''Motion and stillness'')) \<and>
   length (js ''Motion and stillness'') \<le> 20 \<and>
   displayableTopic (js ''Motion and stillness'') = js ''Motion and stillness'' \<and>
   20 < length (js ''Journey and destination'') \<and>
   displayableTopic (js ''Journey and destination'') = js ''Journey and desti...''"
proof -
  let ?sys = "sys_run toLowerCase_ascii [Search (js ''Motion and stillness'') 3] (mount 0)"
  let ?op = "\<lparr> topic = js ''Motion and stillness'', isCancelled = False,
            accumulatedContent = [], startTime = 3, streamClosed = False, artSettled = False \<rparr>"
  have h1: "current ?sys = Some ?op" by (simp only: example_motion) simp
  have h1': "\<not> artSettled ?op" by simp
  have ct: "currentTopic (app ?sys) = js ''Motion and stillness''"
    by (simp only: example_motion) simp
  have h2: "length (js ''Motion and stillness'') \<le> 20" by (simp add: js_def)
  have h3: "20 < length (js ''Journey and destination'')" by (simp add: js_def)
  note short = fallback_art_label [where lower = toLowerCase_ascii
      and evs = "[Search (js ''Motion and stillness'') 3]" and ?t0.0 = 0 and op = ?op
      and t = "js ''Motion and stillness''"]
  note long = fallback_art_label [where lower = toLowerCase_ascii
      and evs = "[Search (js ''Motion and stillness'') 3]" and ?t0.0 = 0 and op = ?op
      and t = "js ''Journey and destination''"]
  from short h1 h1' have "asciiArt (app (deliver toLowerCase_ascii (ArtEv ArtRejected) ?sys)) =
             Some (createFallbackArt (currentTopic (app ?sys)))"
    by blast
  then have a: "asciiArt (app (deliver toLowerCase_ascii (ArtEv ArtRejected) ?sys)) =
             Some (createFallbackArt (js ''Motion and stillness''))"
    by (simp only: ct)
  from short h2 have b: "displayableTopic (js ''Motion and stillness'') = js ''Motion and stillness''"
    by blast
  from long h3 have "displayableTopic (js ''Journey and destination'') =
          take 17 (js ''Journey and destination'') @ js ''...''" by blast
  then have c: "displayableTopic (js ''Journey and destination'') = js ''Journey and desti...''"
    by (simp add: js_def)
  from h1 a h2 b h3 c show ?thesis by blast
qed

text \<open>
  C6 as stated, a truncated label of at most 17 characters plus an ellipsis whenever art
  generation fails, fails for the topic \<^verbatim>\<open>Motion and stillness\<close> of the curated list:
  the label is the whole topic, 20 code units, and does not end in an ellipsis.
\<close>

theorem fallback_art_label_counterexample:
  "asciiArt (app (deliver toLowerCase_ascii (ArtEv ArtRejected)
     (sys_run toLowerCase_ascii [Search (js ''Motion and stillness'') 3] (mount 0)))) =
     Some (createFallbackArt (js ''Motion and stillness'')) \<and>
   lines_of (art (createFallbackArt (js ''Motion and stillness''))) ! 1 =
     [0x2502] @ js '' Motion and stillness '' @ [0x2502] \<and>
   displayableTopic (js ''Motion and stillness'') = js ''Motion and stillness'' \<and>
   length (displayableTopic (js ''Motion and stillness'')) = 20 \<and>
   \<not> endsWith (displayableTopic (js ''Motion and stillness'')) (js ''...'')"
proof -
  have a: "asciiArt (app (deliver toLowerCase_ascii (ArtEv ArtRejected)
     (sys_run toLowerCase_ascii [Search (js ''Motion and stillness'') 3] (mount 0)))) =
     Some (createFallbackArt (js ''Motion and stillness''))"
    by (simp only: example_motion) (simp add: deliver_def art_step_def)
  have b: "lines_of (art (createFallbackArt (js ''Motion and stillness''))) ! 1 =
     [0x2502] @ js '' Motion and stillness '' @ [0x2502] \<and>
   displayableTopic (js ''Motion and stillness'') = js ''Motion and stillness'' \<and>
   length (displayableTopic (js ''Motion and stillness'')) = 20 \<and>
   \<not> endsWith (displayableTopic (js ''Motion and stillness'')) (js ''...'')"
    by (simp add: createFallbackArt_def displayableTopic_def js_def nl_def repeat_def
        endsWith_def Let_def)
  from a b show ?thesis by blast
qed

subsection \<open>C7: translating empty content\<close>

text \<open>
  C7. Invoking the translate action while the content is empty starts nothing: the state
  is returned as it is, so \<open>isTranslating\<close>, \<open>translatedContent\<close>, \<open>translationError\<close> and
  \<open>translatedLanguage\<close> are unchanged, and no call of the translation stream is made. The
  component with its fetches and translations stays as it is.
\<close>

theorem translate_empty_content_noop:
  "(content s = [] \<longrightarrow>
      handleTranslate s = (None, s, []) \<and>
      fst (snd (handleTranslate s)) = s \<and>
      snd (snd (handleTranslate s)) = []) \<and>
   (content (app sys) = [] \<longrightarrow> translate sys = sys)"
  by (simp add: handleTranslate_def translate_def)

text \<open>The initial state, and the component right after its mount, have empty content.\<close>

theorem translate_empty_content_noop_witness:
  "content initial_state = [] \<and> handleTranslate initial_state = (None, initial_state, []) \<and>
   content (app (mount 0)) = [] \<and> translate (mount 0) = mount 0"
proof -
  have h: "content initial_state = []" by (simp add: initial_state_def)
  have h': "content (app (mount 0)) = []"
    by (simp add: mount_def topic_effect_def fetchContentAndArt_def initial_state_def js_def)
  from translate_empty_content_noop [where s = initial_state and sys = "mount 0"] h h'
  show ?thesis by blast
qed

subsection \<open>C8: a failed translation\<close>

text \<open>
  C8 (as amended). When a running translation stream fails, by a chunk that begins with
  \<^verbatim>\<open>Error:\<close> or by a thrown error, the partial translated content is cleared to null,
  translating is switched off and the translated-language label is not updated. The
  translation error is the raw message without its leading \<^verbatim>\<open>Error: \<close> when the
  message begins with this prefix, and the raw message itself when \<^verbatim>\<open>Error: \<close> does not
  occur in it; in every case it is what \<^verbatim>\<open>replace\<close> returns for the raw message.
\<close>

theorem translation_failure_message:
  "(\<not> translationClosed op \<longrightarrow>
      snd (translate_step (Throws e) (op, s)) =
        s\<lparr> translationError := Some (replace (errorMessage e) (js ''Error: '') []),
           translatedContent := None, isTranslating := False \<rparr> \<and>
      translatedLanguage (snd (translate_step (Throws e) (op, s))) = translatedLanguage s) \<and>
   (\<not> translationClosed op \<and> startsWith chunk (js ''Error:'') \<longrightarrow>
      snd (translate_step (Chunk chunk) (op, s)) =
        s\<lparr> translationError := Some (replace chunk (js ''Error: '') []),
           translatedContent := None, isTranslating := False \<rparr> \<and>
      translatedLanguage (snd (translate_step (Chunk chunk) (op, s))) = translatedLanguage s) \<and>
   (startsWith m (js ''Error: '') \<longrightarrow> replace m (js ''Error: '') [] = drop 7 m) \<and>
   (\<not> js_includes m (js ''Error: '') \<longrightarrow> replace m (js ''Error: '') [] = m)"
proof -
  have a: "\<not> translationClosed op \<longrightarrow>
      snd (translate_step (Throws e) (op, s)) =
        s\<lparr> translationError := Some (replace (errorMessage e) (js ''Error: '') []),
           translatedContent := None, isTranslating := False \<rparr> \<and>
      translatedLanguage (snd (translate_step (Throws e) (op, s))) = translatedLanguage s"
    by (simp add: translate_step_def translate_finally_def translate_catch_def)
  have b: "\<not> translationClosed op \<and> startsWith chunk (js ''Error:'') \<longrightarrow>
      snd (translate_step (Chunk chunk) (op, s)) =
        s\<lparr> translationError := Some (replace chunk (js ''Error: '') []),
           translatedContent := None, isTranslating := False \<rparr> \<and>
      translatedLanguage (snd (translate_step (Chunk chunk) (op, s))) = translatedLanguage s"
    by (simp add: translate_step_def translate_finally_def translate_catch_def errorMessage_def)
  have c: "startsWith m (js ''Error: '') \<longrightarrow> replace m (js ''Error: '') [] = drop 7 m"
    using replace_leading [of m "js ''Error: ''" "[]"] by (simp add: length_js_Error_space)
  have d: "\<not> js_includes m (js ''Error: '') \<longrightarrow> replace m (js ''Error: '') [] = m"
    using replace_not_included by blast
  from a b c d show ?thesis by blast
qed

text \<open>
  The chunk \<^verbatim>\<open>Error: Quota exceeded\<close> after a partial translation, and a thrown value that
  is not an error object.
\<close>

theorem translation_failure_message_witness:
  "\<not> translationClosed \<lparr> sourceContent = js ''Text'', language = js ''Spanish'',
       accumulatedTranslation = js ''Tex'', translationClosed = False \<rparr> \<and>
   startsWith (js ''Error: Quota exceeded'') (js ''Error:'') \<and>
   startsWith (js ''Error: Quota exceeded'') (js ''Error: '') \<and>
   \<not> js_includes (js ''An unknown error occurred'') (js ''Error: '') \<and>
   translationError (snd (translate_step (Chunk (js ''Error: Quota exceeded''))
     (\<lparr> sourceContent = js ''Text'', language = js ''Spanish'',
        accumulatedTranslation = js ''Tex'', translationClosed = False \<rparr>,
      initial_state\<lparr> content := js ''Text'', isLoading := False, isTranslating := True,
        translatedContent := Some (js ''Tex'') \<rparr>))) = Some (js ''Quota exceeded'') \<and>
   translatedContent (snd (translate_step (Chunk (js ''Error: Quota exceeded''))
     (\<lparr> sourceContent = js ''Text'', language = js ''Spanish'',
        accumulatedTranslation = js ''Tex'', translationClosed = False \<rparr>,
      initial_state\<lparr> content := js ''Text'', isLoading := False, isTranslating := True,
        translatedContent := Some (js ''Tex'') \<rparr>))) = None \<and>
   translatedLanguage (snd (translate_step (Chunk (js ''Error: Quota exceeded''))
     (\<lparr> sourceContent = js ''Text'', language = js ''Spanish'',
        accumulatedTranslation = js ''Tex'', translationClosed = False \<rparr>,
      initial_state\<lparr> content := js ''Text'', isLoading := False, isTranslating := True,
        translatedContent := Some (js ''Tex'') \<rparr>))) = None \<and>
   translationError (snd (translate_step (Throws NonError)
     (\<lparr> sourceContent = js ''Text'', language = js ''Spanish'',
        accumulatedTranslation = js ''Tex'', translationClosed = False \<rparr>,
      initial_state\<lparr> content := js ''Text'', isLoading := False, isTranslating := True,
        translatedContent := Some (js ''Tex'') \<rparr>))) = Some (js ''An unknown error occurred'')"
proof -
  let ?op = "\<lparr> sourceContent = js ''Text'', language = js ''Spanish'',
       accumulatedTranslation = js ''Tex'', translationClosed = False \<rparr>"
  let ?s = "initial_state\<lparr> content := js ''Text'', isLoading := False, isTranslating := True,
        translatedContent := Some (js ''Tex'') \<rparr>"
  let ?c = "js ''Error: Quota exceeded''"
  have h1: "\<not> translationClosed ?op" by simp
  have h2: "startsWith ?c (js ''Error:'')" by (simp add: startsWith_def js_def)
  have h3: "startsWith ?c (js ''Error: '')" by (simp add: startsWith_def js_def)
  have h4: "\<not> js_includes (js ''An unknown error occurred'') (js ''Error: '')"
    by (simp add: startsWith_def js_def)
  have tl: "translatedLanguage ?s = None" by (simp add: initial_state_def)
  note chunk = translation_failure_message [of ?op NonError ?s ?c ?c]
  note thrown = translation_failure_message [of ?op NonError ?s ?c "js ''An unknown error occurred''"]
  from chunk h1 h2 have
    st: "snd (translate_step (Chunk ?c) (?op, ?s)) =
        ?s\<lparr> translationError := Some (replace ?c (js ''Error: '') []),
           translatedContent := None, isTranslating := False \<rparr>" and
    lang: "translatedLanguage (snd (translate_step (Chunk ?c) (?op, ?s))) = translatedLanguage ?s"
    by blast+
  from chunk h3 have r: "replace ?c (js ''Error: '') [] = drop 7 ?c" by blast
  have dr: "drop 7 ?c = js ''Quota exceeded''" by (simp add: js_def)
  from st have a: "translationError (snd (translate_step (Chunk ?c) (?op, ?s))) =
      Some (js ''Quota exceeded'')"
    by (simp only: r dr) simp
  from st have b: "translatedContent (snd (translate_step (Chunk ?c) (?op, ?s))) = None"
    by simp
  from lang tl have c: "translatedLanguage (snd (translate_step (Chunk ?c) (?op, ?s))) = None"
    by simp
  from thrown h1 have st2: "snd (translate_step (Throws NonError) (?op, ?s)) =
        ?s\<lparr> translationError := Some (replace (errorMessage NonError) (js ''Error: '') []),
           translatedContent := None, isTranslating := False \<rparr>"
    by blast
  from thrown h4 have r2: "replace (js ''An unknown error occurred'') (js ''Error: '') [] =
      js ''An unknown error occurred''" by blast
  have em: "errorMessage NonError = js ''An unknown error occurred''" by (simp add: errorMessage_def)
  from st2 have d: "translationError (snd (translate_step (Throws NonError) (?op, ?s))) =
      Some (js ''An unknown error occurred'')"
    by (simp only: em r2) simp
  from h1 h2 h3 h4 a b c d show ?thesis by blast
qed

text \<open>
  C8 as stated, the leading prefix stripped, fails for a thrown error whose message holds
  \<^verbatim>\<open>Error: \<close> further in: the message \<^verbatim>\<open>Network Error: down\<close> has no leading prefix to
  strip, and the error set is \<^verbatim>\<open>Network down\<close>.
\<close>

theorem translation_failure_counterexample:
  "translationError (snd (translate_step (Throws (ErrorObj (js ''Network Error: down'')))
      (\<lparr> sourceContent = js ''Text'', language = js ''Spanish'', accumulatedTranslation = [],
         translationClosed = False \<rparr>,
       fst (snd (handleTranslate (initial_state\<lparr> content := js ''Text'', isLoading := False \<rparr>))))))
     = Some (js ''Network down'') \<and>
   strip_leading_prefix (js ''Error: '') (js ''Network Error: down'') = js ''Network Error: down''"
  by (simp add: translate_step_def translate_finally_def translate_catch_def errorMessage_def
      handleTranslate_def initial_state_def strip_leading_prefix_def startsWith_def js_def)

subsection \<open>C9: the search form\<close>

text \<open>
  C9. The form calls the search callback exactly when the trimmed query is non-empty and
  no load is in progress. It then calls it once, with the trimmed query, which neither
  begins nor ends with white space and which trimming leaves unchanged, and it sets the
  query to the empty string. Otherwise it makes no call and leaves the query as it is.
\<close>

theorem handleSubmit_trimmed_query:
  "(fst (handleSubmit query loading) \<noteq> [] \<longleftrightarrow> trim query \<noteq> [] \<and> \<not> loading) \<and>
   (trim query \<noteq> [] \<and> \<not> loading \<longrightarrow>
      handleSubmit query loading = ([trim query], []) \<and>
      \<not> isWhiteSpace (hd (trim query)) \<and> \<not> isWhiteSpace (last (trim query)) \<and>
      trim (trim query) = trim query) \<and>
   (\<not> (trim query \<noteq> [] \<and> \<not> loading) \<longrightarrow> handleSubmit query loading = ([], query))"
  using trim_ends [of query] trim_trim [of query]
  by (simp add: handleSubmit_def)

text \<open>
  A query with blanks around the topic, submitted idle and submitted while loading; and a
  query of blanks only.
\<close>

theorem handleSubmit_trimmed_query_witness:
  "trim (js '' Hypertext  '') = js ''Hypertext'' \<and>
   handleSubmit (js '' Hypertext  '') False = ([js ''Hypertext''], []) \<and>
   handleSubmit (js '' Hypertext  '') True = ([], js '' Hypertext  '') \<and>
   trim (js ''   '') = [] \<and>
   handleSubmit (js ''   '') False = ([], js ''   '')"
proof -
  have t: "trim (js '' Hypertext  '') = js ''Hypertext''"
    by (simp add: trim_def isWhiteSpace_def js_def)
  have e: "trim (js ''   '') = []"
    by (simp add: trim_def isWhiteSpace_def js_def)
  have ne: "js ''Hypertext'' \<noteq> []" by (simp add: js_def)
  from handleSubmit_trimmed_query [of "js '' Hypertext  ''" False] t ne
  have a: "handleSubmit (js '' Hypertext  '') False = ([js ''Hypertext''], [])" by simp
  from handleSubmit_trimmed_query [of "js '' Hypertext  ''" True]
  have b: "handleSubmit (js '' Hypertext  '') True = ([], js '' Hypertext  '')" by simp
  from handleSubmit_trimmed_query [of "js ''   ''" False] e
  have c: "handleSubmit (js ''   '') False = ([], js ''   '')" by simp
  from t e a b c show ?thesis by blast
qed

subsection \<open>C10: the shape of the fallback art\<close>

text \<open>
  C10 (as amended). For every topic string that contains no line feed, the fallback art
  consists of exactly three newline-separated lines, each as long as the display label
  plus four (two border characters and two padding spaces), the middle one being the
  padded label between the two vertical bars. For every topic string, with or without a
  line feed, the art is a top border, the label row and a bottom border joined by two line
  feeds; the label is the topic itself whenever the topic has at most 20 code units, and
  it is the first 17 code units followed by three dots when the topic is longer than 20.
\<close>

theorem createFallbackArt_three_lines:
  "(nl \<notin> set t \<longrightarrow>
      length (lines_of (art (createFallbackArt t))) = 3 \<and>
      map length (lines_of (art (createFallbackArt t))) =
        replicate 3 (length (displayableTopic t) + 4) \<and>
      lines_of (art (createFallbackArt t)) ! 1 =
        [0x2502, 0x20] @ displayableTopic t @ [0x20, 0x2502]) \<and>
   art (createFallbackArt t) =
     ([0x250C] @ repeat [0x2500] (length (displayableTopic t) + 2) @ [0x2510]) @ [nl] @
     ([0x2502, 0x20] @ displayableTopic t @ [0x20, 0x2502]) @ [nl] @
     ([0x2514] @ repeat [0x2500] (length (displayableTopic t) + 2) @ [0x2518]) \<and>
   (length t \<le> 20 \<longrightarrow> displayableTopic t = t) \<and>
   (20 < length t \<longrightarrow> displayableTopic t = take 17 t @ js ''...'')"
proof -
  have a: "nl \<notin> set t \<longrightarrow>
      length (lines_of (art (createFallbackArt t))) = 3 \<and>
      map length (lines_of (art (createFallbackArt t))) =
        replicate 3 (length (displayableTopic t) + 4) \<and>
      lines_of (art (createFallbackArt t)) ! 1 =
        [0x2502, 0x20] @ displayableTopic t @ [0x20, 0x2502]"
    by (simp add: createFallbackArt_lines_of length_repeat_single numeral_3_eq_3)
  have b: "art (createFallbackArt t) =
     ([0x250C] @ repeat [0x2500] (length (displayableTopic t) + 2) @ [0x2510]) @ [nl] @
     ([0x2502, 0x20] @ displayableTopic t @ [0x20, 0x2502]) @ [nl] @
     ([0x2514] @ repeat [0x2500] (length (displayableTopic t) + 2) @ [0x2518])"
    by (simp add: createFallbackArt_def Let_def js_space)
  have c: "length t \<le> 20 \<longrightarrow> displayableTopic t = t"
    by (simp add: displayableTopic_def)
  have d: "20 < length t \<longrightarrow> displayableTopic t = take 17 t @ js ''...''"
    by (simp add: displayableTopic_def substring_0)
  from a b c d show ?thesis by blast
qed

text \<open>The first topic, of 9 code units, and a topic of 34.\<close>

theorem createFallbackArt_three_lines_witness:
  "nl \<notin> set (js ''Hypertext'') \<and> length (js ''Hypertext'') \<le> 20 \<and>
   map length (lines_of (art (createFallbackArt (js ''Hypertext'')))) = [13, 13, 13] \<and>
   displayableTopic (js ''Hypertext'') = js ''Hypertext'' \<and>
   20 < length (js ''Supercalifragilisticexpialidocious'') \<and>
   displayableTopic (js ''Supercalifragilisticexpialidocious'') = js ''Supercalifragilis...''"
proof -
  have h1: "nl \<notin> set (js ''Hypertext'')" by (simp add: js_def nl_def)
  have h2: "length (js ''Hypertext'') \<le> 20" by (simp add: js_def)
  have h3: "20 < length (js ''Supercalifragilisticexpialidocious'')" by (simp add: js_def)
  note short = createFallbackArt_three_lines [of "js ''Hypertext''"]
  note long = createFallbackArt_three_lines [of "js ''Supercalifragilisticexpialidocious''"]
  from short h2 have d: "displayableTopic (js ''Hypertext'') = js ''Hypertext''" by blast
  from short h1 have "map length (lines_of (art (createFallbackArt (js ''Hypertext'')))) =
      replicate 3 (length (displayableTopic (js ''Hypertext'')) + 4)" by blast
  then have l: "map length (lines_of (art (createFallbackArt (js ''Hypertext'')))) = [13, 13, 13]"
    unfolding d by (simp add: js_def numeral_3_eq_3)
  from long h3 have "displayableTopic (js ''Supercalifragilisticexpialidocious'') =
      take 17 (js ''Supercalifragilisticexpialidocious'') @ js ''...''" by blast
  then have t: "displayableTopic (js ''Supercalifragilisticexpialidocious'') =
      js ''Supercalifragilis...''" by (simp add: js_def)
  from h1 h2 h3 d l t show ?thesis by blast
qed

text \<open>
  C10 as stated, for every topic string, fails for a topic that contains a line feed: for
  the three code units \<^verbatim>\<open>a\<close>, line feed, \<^verbatim>\<open>b\<close> the art has four lines, of 7, 3, 3 and
  7 code units.
\<close>

theorem createFallbackArt_line_feed_counterexample:
  "map length (lines_of (art (createFallbackArt [0x61, 0x0A, 0x62]))) = [7, 3, 3, 7]"
  by (simp add: createFallbackArt_def displayableTopic_def js_def nl_def repeat_def Let_def)

end
